theory Spec2Isabelle
  imports Complex_Main
begin

section \<open>Data model of the bandit state\<close>

text \<open>
  The model follows \<^verbatim>\<open>src/app.py\<close>. The values of Python floats are modelled as
  mathematical reals (no NaN, no infinities); Python's unbounded integers as
  \<open>int\<close>/\<open>nat\<close>.
  The dictionary \<^verbatim>\<open>data["subnets"]\<close> is a finite map from the group id (the text of
  a /24 network address) to its record; \<^verbatim>\<open>decay_rate\<close> is the attribute of the
  manager object, the other fields are the entries of \<^verbatim>\<open>self.data\<close>.
\<close>

record subnet_record =
  count :: real
  total_reward :: real

record ucb_manager =
  decay_rate :: real
  total_runs :: real
  launch_count :: int
  subnets :: "string \<rightharpoonup> subnet_record"

section \<open>Addresses as text\<close>

text \<open>
  \<^verbatim>\<open>str(n)\<close> for a natural number, and \<^verbatim>\<open>str(IPv4Address(a))\<close>: the four bytes of
  the 32-bit value in decimal, joined by dots.
\<close>

definition digit_char :: "nat \<Rightarrow> char" where
  "digit_char d = ''0123456789'' ! d"

fun str_nat :: "nat \<Rightarrow> string" where
  "str_nat n = (if n < 10 then [digit_char n] else str_nat (n div 10) @ [digit_char (n mod 10)])"

declare str_nat.simps [simp del]

definition str_ipv4 :: "nat \<Rightarrow> string" where
  "str_ipv4 a =
     str_nat (a div 2 ^ 24 mod 256) @ ''.'' @ str_nat (a div 2 ^ 16 mod 256) @ ''.'' @
     str_nat (a div 2 ^ 8 mod 256) @ ''.'' @ str_nat (a mod 256)"

text \<open>
  \<^verbatim>\<open>s.split(sep)\<close> for a one-character separator: every occurrence splits, empty
  pieces are kept.
\<close>

fun split_on :: "char \<Rightarrow> string \<Rightarrow> string list" where
  "split_on c [] = [[]]"
| "split_on c (x # xs) =
     (if x = c then [] # split_on c xs
      else (case split_on c xs of [] \<Rightarrow> [[x]] | w # ws \<Rightarrow> (x # w) # ws))"

definition is_digit :: "char \<Rightarrow> bool" where
  "is_digit c = (c \<in> set ''0123456789'')"

definition digit_val :: "char \<Rightarrow> nat" where
  "digit_val c = of_char c - 48"

definition dec_val :: "string \<Rightarrow> nat" where
  "dec_val s = foldl (\<lambda>acc c. 10 * acc + digit_val c) 0 s"

text \<open>
  One octet as the standard library's IPv4 parser reads it: not empty, ASCII digits only,
  at most three of them, no leading zero on a longer octet, value at most 255. A failure
  is the library's \<^verbatim>\<open>AddressValueError\<close>, here \<open>None\<close>.
\<close>

definition parse_octet :: "string \<Rightarrow> nat option" where
  "parse_octet s =
     (if s = [] then None
      else if \<not> list_all is_digit s then None
      else if length s > 3 then None
      else if length s > 1 \<and> hd s = CHR ''0'' then None
      else if dec_val s > 255 then None
      else Some (dec_val s))"

text \<open>
  Lines 101-104 of \<^verbatim>\<open>update\<close>: an address containing a colon is ignored; otherwise
  \<^verbatim>\<open>str(IPv4Network(ip + "/24", strict=False).network_address)\<close>, where any parse
  error is swallowed. The appended \<^verbatim>\<open>/24\<close> makes an address that already holds a
  slash unparsable. The result is the group id: the address with its last byte cleared.
\<close>

definition subnet_of :: "string \<Rightarrow> string option" where
  "subnet_of ip =
     (if CHR '':'' \<in> set ip then None
      else if CHR ''/'' \<in> set ip then None
      else (case map parse_octet (split_on CHR ''.'' ip) of
              [Some a, Some b, Some c, Some d] \<Rightarrow>
                Some (str_ipv4 (a * 2 ^ 24 + b * 2 ^ 16 + c * 2 ^ 8))
            | _ \<Rightarrow> None))"

section \<open>Float arithmetic\<close>

text \<open>
  The values of Python floats are modelled as reals. Where \<^verbatim>\<open>update\<close> and \<^verbatim>\<open>save\<close>
  compute with floats, the four operations \<^verbatim>\<open>+\<close>, \<^verbatim>\<open>-\<close>, \<^verbatim>\<open>*\<close> and \<^verbatim>\<open>/\<close> are the
  operations of an \<open>arith\<close>, which is a parameter of these functions: what is proved for
  every \<open>arith\<close> holds however the operations round. \<open>exact\<close> is the arithmetic without
  rounding. Comparisons, \<^verbatim>\<open>min\<close> and \<^verbatim>\<open>max\<close> do not round. The comparisons
  of \<^verbatim>\<open>update\<close>, \<^verbatim>\<open>save\<close> and \<^verbatim>\<open>get_score\<close> with a literal (above 0.6, below
  0.1, 0.2 or 0.5, above 2.0) have the same outcome, for every double, against the
  decimal value and against the double that the literal denotes, so the decimal value is
  written. The divisions of the source are guarded or have a constant divisor, so none raises
  \<^verbatim>\<open>ZeroDivisionError\<close>.
\<close>

record arith =
  fadd :: "real \<Rightarrow> real \<Rightarrow> real"
  fsub :: "real \<Rightarrow> real \<Rightarrow> real"
  fmul :: "real \<Rightarrow> real \<Rightarrow> real"
  fdiv :: "real \<Rightarrow> real \<Rightarrow> real"

definition exact :: arith where
  "exact = \<lparr>fadd = (+), fsub = (-), fmul = (*), fdiv = (/)\<rparr>"

text \<open>
  Double arithmetic: every operation takes the doubles nearest to its arguments and
  returns the double nearest to the exact result, ties going to the even significand.
  A double is an integer multiple of \<open>2 ^ ulp_exponent\<close>, with 53 significant bits, or
  fewer below \<open>2 ^ -1022\<close>. Results of magnitude \<open>2 ^ 1024\<close> and more, which Python
  turns into an infinity, are outside this arithmetic.
\<close>

definition round_even :: "real \<Rightarrow> int" where
  "round_even y =
     (let f = \<lfloor>y\<rfloor>; r = y - of_int f
      in if r < 1 / 2 then f else if 1 / 2 < r then f + 1 else if even f then f else f + 1)"

definition ulp_exponent :: "real \<Rightarrow> int" where
  "ulp_exponent x = max (\<lfloor>log 2 \<bar>x\<bar>\<rfloor> - 52) (- 1074)"

definition round_double :: "real \<Rightarrow> real" where
  "round_double x =
     (if x = 0 then 0
      else of_int (round_even (x / 2 powr of_int (ulp_exponent x))) *
           2 powr of_int (ulp_exponent x))"

definition double :: arith where
  "double =
     \<lparr>fadd = (\<lambda>a b. round_double (round_double a + round_double b)),
      fsub = (\<lambda>a b. round_double (round_double a - round_double b)),
      fmul = (\<lambda>a b. round_double (round_double a * round_double b)),
      fdiv = (\<lambda>a b. round_double (round_double a / round_double b))\<rparr>"

section \<open>UCBManager\<close>

text \<open>Lines 106-114 of \<^verbatim>\<open>update\<close>: the reward of one outcome.\<close>

definition current_reward :: "arith \<Rightarrow> real \<Rightarrow> real \<Rightarrow> bool \<Rightarrow> bool \<Rightarrow> real" where
  "current_reward ar latency speed is_loss tcp_only =
     (if is_loss then 0
      else
        let r_latency =
              fmul ar 0.3 (fsub ar 1 (min (fdiv ar (max (fsub ar latency 50) 0) 150) 1))
        in if tcp_only then r_latency
           else let r_speed = fmul ar 0.7 (min (fdiv ar speed 10) 1)
                in fadd ar r_latency r_speed)"

text \<open>Lines 120-124 of \<^verbatim>\<open>update\<close>: the weight of the new sample.\<close>

definition impact_weight :: "arith \<Rightarrow> subnet_record \<Rightarrow> real \<Rightarrow> real" where
  "impact_weight ar record reward =
     (if count record > 2
      then (let avg_score = fdiv ar (total_reward record) (count record)
            in if avg_score > 0.6 \<and> reward < 0.1 then 0.2 else 1)
      else 1)"

definition update ::
  "arith \<Rightarrow> string \<Rightarrow> real \<Rightarrow> real \<Rightarrow> bool \<Rightarrow> bool \<Rightarrow> ucb_manager \<Rightarrow> ucb_manager" where
  "update ar ip latency speed is_loss tcp_only st =
     (case subnet_of ip of
        None \<Rightarrow> st
      | Some net \<Rightarrow>
          let reward = current_reward ar latency speed is_loss tcp_only;
              record = (case subnets st net of
                          None \<Rightarrow> \<lparr>count = 0, total_reward = 0\<rparr>
                        | Some r \<Rightarrow> r);
              w = impact_weight ar record reward
          in st\<lparr>total_runs := fadd ar (total_runs st) w,
                subnets := (subnets st)(net \<mapsto>
                  \<lparr>count = fadd ar (count record) w,
                   total_reward = fadd ar (total_reward record) (fmul ar reward w)\<rparr>)\<rparr>)"

text \<open>
  \<^verbatim>\<open>get_score\<close>, in exact arithmetic: the score is a value that is only compared with
  other scores.
\<close>

definition get_score :: "ucb_manager \<Rightarrow> string \<Rightarrow> real" where
  "get_score st subnet_ip =
     (case subnets st subnet_ip of
        None \<Rightarrow> 9999
      | Some record \<Rightarrow>
          if count record < 0.1 then 9999
          else
            let n = max (total_runs st) 1;
                nj = count record;
                avg_reward = total_reward record / nj;
                exploration = sqrt (2 * ln n / nj)
            in avg_reward + exploration)"

text \<open>
  Lines 74-77 of \<^verbatim>\<open>save\<close>: the record after decay, and its average, 0 when its count
  is not positive.
\<close>

definition decayed :: "arith \<Rightarrow> real \<Rightarrow> subnet_record \<Rightarrow> subnet_record" where
  "decayed ar r record =
     \<lparr>count = fmul ar (count record) r, total_reward = fmul ar (total_reward record) r\<rparr>"

definition avg :: "arith \<Rightarrow> subnet_record \<Rightarrow> real" where
  "avg ar record =
     (if count record > 0 then fdiv ar (total_reward record) (count record) else 0)"

text \<open>
  \<^verbatim>\<open>save\<close>: decay the sample total and every record, drop the records that are both
  light and poor. Writing the file is best effort and does not change the state.
\<close>

definition save :: "arith \<Rightarrow> ucb_manager \<Rightarrow> ucb_manager" where
  "save ar st =
     st\<lparr>total_runs := fmul ar (total_runs st) (decay_rate st),
        subnets := (\<lambda>net. case subnets st net of
                             None \<Rightarrow> None
                           | Some record \<Rightarrow>
                               let record' = decayed ar (decay_rate st) record
                               in if count record' < 0.5 \<and> avg ar record' < 0.2 then None
                                  else Some record')\<rparr>"

definition is_cold_start :: "ucb_manager \<Rightarrow> bool" where
  "is_cold_start st = (launch_count st \<le> 3 \<or> card (dom (subnets st)) < 100)"

text \<open>
  The specification's notation \<open>clamp(x, lo, hi)\<close>, used to state the reward formula
  the way the specification writes it.
\<close>

definition clamp :: "real \<Rightarrow> real \<Rightarrow> real \<Rightarrow> real" where
  "clamp x lo hi = min (max x lo) hi"

section \<open>Random source\<close>

text \<open>
  The module \<^verbatim>\<open>random\<close> is a global generator. It is modelled as an arbitrary
  infinite sequence of raw draws together with the position of the next one; every call
  consumes one raw draw. A seed of the real generator fixes one such sequence, so a
  statement about every sequence covers every seed.
\<close>

type_synonym rng = "(nat \<Rightarrow> nat) \<times> nat"

datatype error = ValueError | AddressValueError

text \<open>A value below \<open>n\<close>, as the generator's internal \<^verbatim>\<open>_randbelow(n)\<close> gives.\<close>

definition randbelow :: "nat \<Rightarrow> rng \<Rightarrow> nat \<times> rng" where
  "randbelow n g = (fst g (snd g) mod n, (fst g, Suc (snd g)))"

text \<open>
  \<^verbatim>\<open>random.randint(a, b)\<close>: a value in \<open>a..b\<close>; an empty range raises
  \<^verbatim>\<open>ValueError\<close>.
\<close>

definition randint :: "int \<Rightarrow> int \<Rightarrow> rng \<Rightarrow> error + (int \<times> rng)" where
  "randint a b g =
     (if b < a then Inl ValueError
      else (case randbelow (nat (b - a + 1)) g of (k, g') \<Rightarrow> Inr (a + int k, g')))"

text \<open>\<^verbatim>\<open>random.random()\<close>: a multiple of \<open>2 ^ -53\<close> in \<open>[0, 1)\<close>.\<close>

definition random :: "rng \<Rightarrow> real \<times> rng" where
  "random g = (case randbelow (2 ^ 53) g of (k, g') \<Rightarrow> (real k / 2 ^ 53, g'))"

text \<open>
  \<^verbatim>\<open>random.shuffle(x)\<close>: for \<open>i\<close> from the last index down to 1, swap the entries
  at \<open>i\<close> and at a random \<open>j \<le> i\<close>.
\<close>

fun shuffle_from :: "nat \<Rightarrow> 'a list \<Rightarrow> rng \<Rightarrow> 'a list \<times> rng" where
  "shuffle_from 0 xs g = (xs, g)"
| "shuffle_from (Suc k) xs g =
     (case randbelow (Suc (Suc k)) g of
        (j, g') \<Rightarrow> shuffle_from k (xs[Suc k := xs ! j, j := xs ! Suc k]) g')"

definition shuffle :: "'a list \<Rightarrow> rng \<Rightarrow> 'a list \<times> rng" where
  "shuffle xs g = shuffle_from (length xs - 1) xs g"

section \<open>Networks\<close>

text \<open>
  An \<^verbatim>\<open>IPv4Network\<close> is its network address (a 32-bit value) and its prefix
  length; \<^verbatim>\<open>net[i]\<close> is the address \<open>network_address + i\<close>. Of an
  \<^verbatim>\<open>IPv6Network\<close> the generator reads the network address only.
\<close>

record ipv4_network =
  network_address :: nat
  prefixlen :: nat

record ipv6_network =
  network_address6 :: nat
  prefixlen6 :: nat

definition num_addresses :: "ipv4_network \<Rightarrow> nat" where
  "num_addresses net = 2 ^ (32 - prefixlen net)"

text \<open>\<^verbatim>\<open>list(net.subnets(new_prefix=24))\<close> for a prefix shorter than 24.\<close>

definition subnets24 :: "ipv4_network \<Rightarrow> ipv4_network list" where
  "subnets24 net =
     map (\<lambda>k. \<lparr>network_address = network_address net + k * 256, prefixlen = 24\<rparr>)
       [0..<2 ^ (24 - prefixlen net)]"

text \<open>Lines 221-227 of \<^verbatim>\<open>generate\<close>.\<close>

definition all_subnets :: "ipv4_network list \<Rightarrow> ipv4_network list" where
  "all_subnets cidrs_v4 =
     concat (map (\<lambda>net. if prefixlen net < 24 then subnets24 net else [net]) cidrs_v4)"

section \<open>SmartGenerator: cold start\<close>

text \<open>
  Lines 241-245: one pass over the groups. The pass stops when the target is reached;
  a group with more than two addresses contributes the text of one random host address
  \<^verbatim>\<open>sn[randint(1, num_addresses - 2)]\<close>, any other group contributes nothing.
\<close>

fun sweep ::
  "ipv4_network list \<Rightarrow> int \<Rightarrow> string list \<Rightarrow> rng \<Rightarrow> error + (string list \<times> rng)" where
  "sweep [] max_total_count targets g = Inr (targets, g)"
| "sweep (sn # sns) max_total_count targets g =
     (if int (length targets) \<ge> max_total_count then Inr (targets, g)
      else if num_addresses sn > 2 then
        (case randint 1 (int (num_addresses sn) - 2) g of
           Inl e \<Rightarrow> Inl e
         | Inr (i, g') \<Rightarrow>
             sweep sns max_total_count
               (targets @ [str_ipv4 (network_address sn + nat i)]) g')
      else sweep sns max_total_count targets g)"

text \<open>
  Lines 240-252: the \<^verbatim>\<open>while\<close> loop. The first argument bounds the number of times
  the loop condition is tested; \<open>None\<close> means the bound was reached before the loop
  ended.
\<close>

fun cold_loop ::
  "nat \<Rightarrow> ipv4_network list \<Rightarrow> int \<Rightarrow> string list \<Rightarrow> rng \<Rightarrow>
     (error + (string list \<times> rng)) option" where
  "cold_loop 0 subs max_total_count targets g = None"
| "cold_loop (Suc fuel) subs max_total_count targets g =
     (if int (length targets) < max_total_count then
        (case sweep subs max_total_count targets g of
           Inl e \<Rightarrow> Some (Inl e)
         | Inr (targets', g') \<Rightarrow>
             if int (length targets') \<ge> max_total_count then Some (Inr (targets', g'))
             else if int (length subs) * 254 < max_total_count \<and>
                     length targets' \<ge> length subs * 250
               then Some (Inr (targets', g'))
             else cold_loop fuel subs max_total_count targets' g')
      else Some (Inr (targets, g)))"

section \<open>SmartGenerator: UCB mode\<close>

text \<open>
  Lines 292-298: up to five draws for one slot; the first address not yet picked in this
  group is taken.
\<close>

fun try_pick ::
  "nat \<Rightarrow> ipv4_network \<Rightarrow> string set \<Rightarrow> rng \<Rightarrow> error + (string option \<times> rng)" where
  "try_pick 0 sn picked g = Inr (None, g)"
| "try_pick (Suc k) sn picked g =
     (case randint 1 (int (num_addresses sn) - 2) g of
        Inl e \<Rightarrow> Inl e
      | Inr (i, g') \<Rightarrow>
          (let rip = str_ipv4 (network_address sn + nat i)
           in if rip \<notin> picked then Inr (Some rip, g') else try_pick k sn picked g'))"

text \<open>Lines 291-298: the slots of one group.\<close>

fun pick_slots ::
  "nat \<Rightarrow> ipv4_network \<Rightarrow> string set \<Rightarrow> string list \<Rightarrow> nat \<Rightarrow> rng \<Rightarrow>
     error + (string list \<times> nat \<times> rng)" where
  "pick_slots 0 sn picked targets generated_count g = Inr (targets, generated_count, g)"
| "pick_slots (Suc n) sn picked targets generated_count g =
     (case try_pick 5 sn picked g of
        Inl e \<Rightarrow> Inl e
      | Inr (None, g') \<Rightarrow> pick_slots n sn picked targets generated_count g'
      | Inr (Some rip, g') \<Rightarrow>
          pick_slots n sn (insert rip picked) (targets @ [rip]) (Suc generated_count) g')"

text \<open>Lines 272-286: the quota of the group at a rank; the last tier draws for revival.\<close>

definition quota :: "nat \<Rightarrow> nat \<Rightarrow> rng \<Rightarrow> nat \<times> rng" where
  "quota rank total_subnets g =
     (if real rank < real total_subnets * 0.05 then (5, g)
      else if real rank < real total_subnets * 0.20 then (3, g)
      else if real rank < real total_subnets * 0.50 then (1, g)
      else (case random g of (u, g') \<Rightarrow> if u < 0.01 then (1, g') else (0, g')))"

text \<open>Line 289.\<close>

definition real_count :: "nat \<Rightarrow> ipv4_network \<Rightarrow> nat" where
  "real_count cnt sn = (if num_addresses sn > 2 then min cnt (num_addresses sn - 2) else 1)"

text \<open>Lines 269-298: the loop over the ranked groups.\<close>

fun warm_loop ::
  "nat \<Rightarrow> nat \<Rightarrow> (real \<times> ipv4_network) list \<Rightarrow> int \<Rightarrow> string list \<Rightarrow> nat \<Rightarrow> rng \<Rightarrow>
     error + (string list \<times> rng)" where
  "warm_loop rank total_subnets [] max_total_count targets generated_count g =
     Inr (targets, g)"
| "warm_loop rank total_subnets ((score, sn) # rest) max_total_count targets generated_count g =
     (if int generated_count \<ge> max_total_count then Inr (targets, g)
      else
        (case quota rank total_subnets g of
           (cnt, g1) \<Rightarrow>
             if cnt > 0 then
               (case pick_slots (real_count cnt sn) sn {} targets generated_count g1 of
                  Inl e \<Rightarrow> Inl e
                | Inr (targets', generated_count', g2) \<Rightarrow>
                    warm_loop (Suc rank) total_subnets rest max_total_count
                      targets' generated_count' g2)
             else
               warm_loop (Suc rank) total_subnets rest max_total_count
                 targets generated_count g1))"

text \<open>
  Lines 258-264: score every group and sort by score, highest first; Python's sort is
  stable, also with \<^verbatim>\<open>reverse=True\<close>.
\<close>

definition scored_subnets :: "ucb_manager \<Rightarrow> ipv4_network list \<Rightarrow> (real \<times> ipv4_network) list" where
  "scored_subnets ucb subs =
     sort_key (\<lambda>x. - fst x)
       (map (\<lambda>sn. (get_score ucb (str_ipv4 (network_address sn)), sn)) subs)"

section \<open>SmartGenerator: IPv6 and the whole generator\<close>

text \<open>
  Lines 305-308, run \<open>limit\<close> times: a random range, a random offset in \<open>1..2 ^ 16\<close>.
  \<^verbatim>\<open>IPv6Address\<close> rejects a value of 128 bits or more. The text of an IPv6 address
  is the library's; it is the parameter \<open>str_ipv6\<close>.
\<close>

fun ipv6_targets ::
  "nat \<Rightarrow> (nat \<Rightarrow> string) \<Rightarrow> ipv6_network list \<Rightarrow> string list \<Rightarrow> rng \<Rightarrow>
     error + (string list \<times> rng)" where
  "ipv6_targets 0 str_ipv6 cidrs_v6 targets g = Inr (targets, g)"
| "ipv6_targets (Suc n) str_ipv6 cidrs_v6 targets g =
     (case randbelow (length cidrs_v6) g of
        (k, g1) \<Rightarrow>
          (let base = network_address6 (cidrs_v6 ! k)
           in case randint 1 (2 ^ 16) g1 of
                Inl e \<Rightarrow> Inl e
              | Inr (i, g2) \<Rightarrow>
                  if base + nat i \<ge> 2 ^ 128 then Inl AddressValueError
                  else ipv6_targets n str_ipv6 cidrs_v6
                         (targets @ [str_ipv6 (base + nat i)]) g2))"

text \<open>
  \<^verbatim>\<open>SmartGenerator.generate\<close>. The result is \<open>None\<close> when the cold-start loop does
  not end within \<open>fuel\<close> tests of its condition, \<open>Some (Inl e)\<close> when an exception
  leaves the function, and otherwise the returned list with the state of the random
  source. \<^verbatim>\<open>int(max_total_count * 0.1)\<close> rounds towards zero; a result that is not
  positive gives no iteration, as the floor does.
\<close>

definition generate ::
  "nat \<Rightarrow> (nat \<Rightarrow> string) \<Rightarrow> ipv4_network list \<Rightarrow> ipv6_network list \<Rightarrow> int \<Rightarrow>
     ucb_manager \<Rightarrow> rng \<Rightarrow> (error + (string list \<times> rng)) option" where
  "generate fuel str_ipv6 cidrs_v4 cidrs_v6 max_total_count ucb g =
     (let subs = all_subnets cidrs_v4;
          v4 = (if is_cold_start ucb then
                  (case shuffle subs g of
                     (shuffled, g1) \<Rightarrow> cold_loop fuel shuffled max_total_count [] g1)
                else
                  (let ranked = scored_subnets ucb subs
                   in Some (warm_loop 0 (length ranked) ranked max_total_count [] 0 g)))
      in case v4 of
           None \<Rightarrow> None
         | Some (Inl e) \<Rightarrow> Some (Inl e)
         | Some (Inr (targets, g2)) \<Rightarrow>
             (case (if cidrs_v6 \<noteq> []
                    then ipv6_targets (nat \<lfloor>real_of_int max_total_count * 0.1\<rfloor>)
                           str_ipv6 cidrs_v6 targets g2
                    else Inr (targets, g2)) of
                Inl e \<Rightarrow> Some (Inl e)
              | Inr (targets', g3) \<Rightarrow> Some (Inr (shuffle targets' g3))))"

text \<open>
  The host addresses a group can contribute (offsets 1 to \<open>num_addresses - 2\<close>), and
  the first of them; used to state where generated addresses lie.
\<close>

definition host_addresses :: "ipv4_network \<Rightarrow> string set" where
  "host_addresses sn = (\<lambda>i. str_ipv4 (network_address sn + i)) ` {1..num_addresses sn - 2}"

definition first_host :: "ipv4_network \<Rightarrow> string" where
  "first_host sn = str_ipv4 (network_address sn + 1)"

section \<open>Scanner: the speed test\<close>

text \<open>
  \<^verbatim>\<open>IpResult\<close>, and the two configuration entries \<^verbatim>\<open>smart_speed_test\<close> reads.
\<close>

record ip_result =
  ip :: string
  latency :: real
  speed :: real
  loss :: bool

record config =
  speed_test_range :: int
  min_speed_target :: real

text \<open>
  The literal \<^verbatim>\<open>0.1\<close> of line 402 is the double nearest to 0.1, which is slightly
  above 0.1; the measured speed is compared with that double.
\<close>

definition speed_floor :: real where
  "speed_floor = round_double 0.1"

text \<open>
  The slice \<^verbatim>\<open>xs[:n]\<close>: the first \<open>n\<close> entries, and for a negative \<open>n\<close> all but the
  last \<open>-n\<close>.
\<close>

definition slice_to :: "int \<Rightarrow> 'a list \<Rightarrow> 'a list" where
  "slice_to n xs = (if 0 \<le> n then take (nat n) xs else take (nat (int (length xs) + n)) xs)"

text \<open>
  Lines 396-402: the loop over the candidates. The throughput probe \<^verbatim>\<open>_http\<close> talks to
  the network; its results are the parameter \<open>http\<close>, the measured speed of the
  \<open>i\<close>-th probe of this run. Each candidate gets its speed, is fed to the model, and is
  kept when its speed is above \<open>speed_floor\<close>.
\<close>

fun probe_all ::
  "arith \<Rightarrow> ip_result list \<Rightarrow> nat \<Rightarrow> (nat \<Rightarrow> real) \<Rightarrow> ucb_manager \<Rightarrow> ip_result list \<Rightarrow>
     ip_result list \<times> ucb_manager" where
  "probe_all ar [] i http ucb final = (final, ucb)"
| "probe_all ar (r # rs) i http ucb final =
     (let s = http i;
          r' = r\<lparr>speed := s\<rparr>;
          ucb' = update ar (ip r') (latency r') s False False ucb
      in probe_all ar rs (Suc i) http ucb' (if s > speed_floor then final @ [r'] else final))"

text \<open>
  \<^verbatim>\<open>smart_speed_test\<close>. The result is the list that is printed, logged and written to
  the result file (\<open>None\<close> when the function returns before any output because there
  is no candidate), and the model after the run. \<^verbatim>\<open>sort(key=speed, reverse=True)\<close> is a
  stable sort by descending speed. \<^verbatim>\<open>x not in high_quality\<close> compares objects; every
  object in \<^verbatim>\<open>high_quality\<close> is an object of \<^verbatim>\<open>final\<close>, and two equal records
  have the same speed, so comparing the records gives the same list.
\<close>

definition smart_speed_test ::
  "arith \<Rightarrow> config \<Rightarrow> ip_result list \<Rightarrow> (nat \<Rightarrow> real) \<Rightarrow> ucb_manager \<Rightarrow>
     ip_result list option \<times> ucb_manager" where
  "smart_speed_test ar cfg results http ucb =
     (let cands = slice_to (speed_test_range cfg) results
      in if cands = [] then (None, ucb)
         else
           (case probe_all ar cands 0 http ucb [] of
              (final, ucb1) \<Rightarrow>
                (let target = min_speed_target cfg;
                     ucb2 = save ar ucb1;
                     final' = sort_key (\<lambda>x. - speed x) final;
                     high_quality = filter (\<lambda>x. speed x \<ge> target) final';
                     high_quality' =
                       (if length high_quality < 5
                        then (let remain = filter (\<lambda>x. x \<notin> set high_quality) final'
                              in high_quality @ take (5 - length high_quality) remain)
                        else high_quality)
                 in (Some high_quality', ucb2))))"

text \<open>
  The candidates as probed (candidate \<open>i\<close> with the speed of probe \<open>i\<close>), and the
  selection stated on them: those above \<open>speed_floor\<close> in descending order of speed, of these the
  ones that reach the target, and when these are fewer than five, the best of the others
  up to five in all.
\<close>

definition probed :: "ip_result list \<Rightarrow> (nat \<Rightarrow> real) \<Rightarrow> ip_result list" where
  "probed cands http = map (\<lambda>(i, r). r\<lparr>speed := http i\<rparr>) (enumerate 0 cands)"

definition selection :: "real \<Rightarrow> ip_result list \<Rightarrow> ip_result list" where
  "selection target rs =
     (let ranked = sort_key (\<lambda>x. - speed x) (filter (\<lambda>x. speed x > speed_floor) rs);
          qualifying = filter (\<lambda>x. speed x \<ge> target) ranked;
          others = filter (\<lambda>x. speed x < target) ranked
      in if length qualifying < 5
         then qualifying @ take (5 - length qualifying) others
         else qualifying)"

section \<open>Concrete states and inputs\<close>

text \<open>A model that knows one well-sampled group and one barely sampled group.\<close>

definition two_group_model :: ucb_manager where
  "two_group_model =
     \<lparr>decay_rate = 0.85, total_runs = 1, launch_count = 1,
      subnets = [''1.2.3.0'' \<mapsto> \<lparr>count = 1, total_reward = 0.5\<rparr>,
                 ''1.2.4.0'' \<mapsto> \<lparr>count = 0.05, total_reward = 0\<rparr>]\<rparr>"

text \<open>
  A model as a model file can hold it, whose only record carries more reward than any
  sequence of updates would give it.
\<close>

definition rich_group_model :: ucb_manager where
  "rich_group_model =
     \<lparr>decay_rate = 0.85, total_runs = 1, launch_count = 1,
      subnets = [''1.2.3.0'' \<mapsto> \<lparr>count = 1, total_reward = 10000\<rparr>]\<rparr>"

text \<open>
  A model with one established group of average reward 0.9 and count \<open>c\<close>.
\<close>

definition good_group_model :: "real \<Rightarrow> ucb_manager" where
  "good_group_model c =
     \<lparr>decay_rate = 0.85, total_runs = 10, launch_count = 1,
      subnets = [''1.2.3.0'' \<mapsto> \<lparr>count = c, total_reward = 0.9 * c\<rparr>]\<rparr>"

text \<open>The model of a first run: nothing known, first launch.\<close>

definition fresh_model :: ucb_manager where
  "fresh_model = \<lparr>decay_rate = 0.85, total_runs = 0, launch_count = 1, subnets = Map.empty\<rparr>"

text \<open>
  A model past cold start: fifth launch, 100 known groups \<^verbatim>\<open>0.0.0.0\<close> to
  \<^verbatim>\<open>0.0.99.0\<close>, each of count 1 and average reward 0.5.
\<close>

definition known_keys :: "string list" where
  "known_keys = map (\<lambda>i. str_ipv4 (i * 256)) [0..<100]"

definition warm_model :: ucb_manager where
  "warm_model =
     \<lparr>decay_rate = 0.85, total_runs = 100, launch_count = 5,
      subnets = map_of (map (\<lambda>k. (k, \<lparr>count = 1, total_reward = 0.5\<rparr>)) known_keys)\<rparr>"

text \<open>
  Two random sources: one whose every raw draw is 0, so that \<^verbatim>\<open>randint\<close> always
  returns its lower bound, and one whose \<open>i\<close>-th raw draw is \<open>i\<close>.
\<close>

definition zero_rng :: rng where
  "zero_rng = (\<lambda>_. 0, 0)"

definition count_rng :: rng where
  "count_rng = (\<lambda>i. i, 0)"

text \<open>
  The ranges \<^verbatim>\<open>1.1.1.1/32\<close> (a single address), \<^verbatim>\<open>10.0.0.0/22\<close> (four groups,
  1016 host addresses) and \<^verbatim>\<open>10.0.0.0/24\<close> (one group).
\<close>

definition single_host_range :: ipv4_network where
  "single_host_range = \<lparr>network_address = 16843009, prefixlen = 32\<rparr>"

definition four_group_range :: ipv4_network where
  "four_group_range = \<lparr>network_address = 167772160, prefixlen = 22\<rparr>"

definition one_group_range :: ipv4_network where
  "one_group_range = \<lparr>network_address = 167772160, prefixlen = 24\<rparr>"

text \<open>
  Three survivors of the connectivity stage, the default configuration entries, and two
  outcomes of the throughput probes: one where only the first candidate has any
  throughput, one where the third has a little.
\<close>

definition three_results :: "ip_result list" where
  "three_results =
     [\<lparr>ip = ''1.0.0.1'', latency = 10, speed = 0, loss = False\<rparr>,
      \<lparr>ip = ''1.0.1.1'', latency = 20, speed = 0, loss = False\<rparr>,
      \<lparr>ip = ''1.0.2.1'', latency = 30, speed = 0, loss = False\<rparr>]"

definition one_fast :: "nat \<Rightarrow> real" where
  "one_fast i = (if i = 0 then 6 else 0)"

definition mixed_speeds :: "nat \<Rightarrow> real" where
  "mixed_speeds i = (if i = 0 then 6 else if i = 1 then 0 else 0.5)"

definition default_config :: config where
  "default_config = \<lparr>speed_test_range = 20, min_speed_target = 5\<rparr>"

section \<open>The score of a group\<close>

lemma ln_bound:
  assumes "1 \<le> (n::real)" "n \<le> 2 ^ 1024"
  shows "ln n \<le> 1024"
proof -
  have "(2::real) \<le> exp 1" using exp_ge_add_one_self[of 1] by simp
  then have "(2::real) ^ 1024 \<le> exp 1 ^ 1024" by (intro power_mono) auto
  also have "\<dots> = exp 1024" by (simp add: exp_of_nat_mult[symmetric])
  finally have "n \<le> exp 1024" using assms by linarith
  then have "ln n \<le> ln (exp 1024)" using assms by (intro ln_mono) auto
  then show ?thesis by simp
qed

lemma score_bound:
  assumes c: "1 / 10 \<le> count r" and a: "total_reward r \<le> count r"
    and n: "total_runs st \<le> 2 ^ 1024"
  shows "total_reward r / count r + sqrt (2 * ln (max (total_runs st) 1) / count r) < 9999"
proof -
  have cp: "0 < count r" using c by linarith
  have l0: "0 \<le> ln (max (total_runs st) 1)" by (intro ln_ge_zero) simp
  have l1: "ln (max (total_runs st) 1) \<le> 1024"
    using n by (intro ln_bound) (auto simp: max_def)
  have "2 * ln (max (total_runs st) 1) / count r \<le> 2 * 1024 / (1 / 10)"
    using l0 l1 c cp by (intro frac_le) auto
  then have "sqrt (2 * ln (max (total_runs st) 1) / count r) \<le> sqrt (144\<^sup>2)"
    by (intro real_sqrt_le_mono) simp
  then have s: "sqrt (2 * ln (max (total_runs st) 1) / count r) \<le> 144" by simp
  have "total_reward r / count r \<le> 1" using a cp by simp
  then show ?thesis using s by linarith
qed

text \<open>
  Claim C1, as amended. \<^verbatim>\<open>get_score\<close> returns the sentinel 9999 when the group is
  absent or its count is below 0.1, and otherwise the average reward plus
  \<open>sqrt (2 * ln (max total_runs 1) / count)\<close>. The sentinel is strictly above the score
  of an explored group (count at least 0.1) whenever that group's total reward does not
  exceed its count (an average of at most 1, the largest reward an update can add) and
  the sample total is at most \<open>2 ^ 1024\<close> (above every finite double). Without these
  two bounds the score of an explored group is unbounded.
\<close>

theorem get_score_sentinel:
  "(subnets st g = None \<longrightarrow> get_score st g = 9999) \<and>
   (\<forall>r. subnets st g = Some r \<and> count r < 0.1 \<longrightarrow> get_score st g = 9999) \<and>
   (\<forall>r. subnets st g = Some r \<and> \<not> count r < 0.1 \<longrightarrow>
        get_score st g =
          total_reward r / count r + sqrt (2 * ln (max (total_runs st) 1) / count r)) \<and>
   (\<forall>r. subnets st g = Some r \<and> \<not> count r < 0.1 \<and> total_reward r \<le> count r \<and>
        total_runs st \<le> 2 ^ 1024 \<longrightarrow> get_score st g < 9999)"
proof -
  have "get_score st g < 9999"
    if "subnets st g = Some r" "\<not> count r < 0.1" "total_reward r \<le> count r"
      "total_runs st \<le> 2 ^ 1024" for r
    using that score_bound[of r st] by (simp add: get_score_def Let_def)
  then show ?thesis by (auto simp: get_score_def Let_def)
qed

text \<open>
  The theorem at \<open>two_group_model\<close>: an absent group and a group of count 0.05 score
  9999; the group of count 1 and total reward 0.5 scores 0.5, below the sentinel.
\<close>

theorem get_score_sentinel_witness:
  "get_score two_group_model ''9.9.9.0'' = 9999 \<and>
   get_score two_group_model ''1.2.4.0'' = 9999 \<and>
   get_score two_group_model ''1.2.3.0'' = 0.5 \<and>
   get_score two_group_model ''1.2.3.0'' < 9999"
  using get_score_sentinel[of two_group_model "''9.9.9.0''"]
    get_score_sentinel[of two_group_model "''1.2.4.0''"]
    get_score_sentinel[of two_group_model "''1.2.3.0''"]
  by (simp add: two_group_model_def)

text \<open>
  The claim as stated fails: a record of count 1 and total reward 10000 is explored, and
  its score 10000 is above the sentinel that an absent group gets.
\<close>

theorem get_score_sentinel_counterexample:
  "get_score rich_group_model ''9.9.9.0'' = 9999 \<and>
   get_score rich_group_model ''1.2.3.0'' = 10000"
  by (simp add: get_score_def rich_group_model_def)

section \<open>Recording an outcome\<close>

lemmas ip_eval = subnet_of_def parse_octet_def is_digit_def dec_val_def digit_val_def
  str_ipv4_def str_nat.simps digit_char_def

lemma subnet_of_1234: "subnet_of ''1.2.3.4'' = Some ''1.2.3.0''"
  by (simp add: ip_eval)

lemma exact_ops [simp]:
  "fadd exact a b = a + b" "fsub exact a b = a - b"
  "fmul exact a b = a * b" "fdiv exact a b = a / b"
  by (simp_all add: exact_def)

lemma current_reward_exact:
  "current_reward exact lat spd is_loss tcp_only =
     (if is_loss then 0
      else if tcp_only then 0.3 * (1 - min (max (lat - 50) 0 / 150) 1)
      else 0.3 * (1 - min (max (lat - 50) 0 / 150) 1) + 0.7 * min (spd / 10) 1)"
  by (simp add: current_reward_def Let_def)

lemma current_reward_le_1: "current_reward exact lat spd is_loss tcp_only \<le> 1"
proof -
  define m where "m = min (max (lat - 50) 0 / 150) (1::real)"
  define s where "s = min (spd / 10) (1::real)"
  have m: "0 \<le> m" and s: "s \<le> 1" by (simp_all add: m_def s_def)
  have "current_reward exact lat spd is_loss tcp_only =
      (if is_loss then 0 else if tcp_only then 0.3 * (1 - m) else 0.3 * (1 - m) + 0.7 * s)"
    by (simp only: current_reward_exact m_def s_def)
  also have "\<dots> \<le> 1" using m s by argo
  finally show ?thesis .
qed

text \<open>
  In exact arithmetic no update gives a group more reward than weight: a state in which
  every record has a count that is not negative and a total reward of at most its count
  stays such a state under \<^verbatim>\<open>update\<close> and, for a decay rate that is not negative,
  under \<^verbatim>\<open>save\<close>.
\<close>

lemma update_keeps_reward_bound:
  assumes inv: "\<And>g r. subnets st g = Some r \<Longrightarrow> 0 \<le> count r \<and> total_reward r \<le> count r"
    and r': "subnets (update exact addr lat spd is_loss tcp_only st) g = Some r'"
  shows "0 \<le> count r' \<and> total_reward r' \<le> count r'"
proof (cases "subnet_of addr")
  case None
  then have "subnets st g = Some r'" using r' by (simp add: update_def)
  then show ?thesis by (rule inv)
next
  case (Some net)
  define x where "x = current_reward exact lat spd is_loss tcp_only"
  define rec where
    "rec = (case subnets st net of None \<Rightarrow> \<lparr>count = 0, total_reward = 0\<rparr> | Some r \<Rightarrow> r)"
  define w where "w = impact_weight exact rec x"
  have x: "x \<le> 1" unfolding x_def by (rule current_reward_le_1)
  have w: "0 < w" by (simp add: w_def impact_weight_def Let_def)
  have rec: "0 \<le> count rec \<and> total_reward rec \<le> count rec"
    using inv[of net] by (cases "subnets st net") (simp_all add: rec_def)
  have xw: "x * w \<le> w" using x w by (simp add: mult_le_cancel_right1)
  show ?thesis
  proof (cases "g = net")
    case True
    then have "r' = \<lparr>count = count rec + w, total_reward = total_reward rec + x * w\<rparr>"
      using r' Some by (simp add: update_def Let_def rec_def x_def w_def)
    moreover have "total_reward rec + x * w \<le> count rec + w" using rec xw by linarith
    moreover have "0 \<le> count rec + w" using rec w by linarith
    ultimately show ?thesis by simp
  next
    case False
    then have "subnets st g = Some r'"
      using r' Some by (simp add: update_def Let_def)
    then show ?thesis by (rule inv)
  qed
qed

lemma save_keeps_reward_bound:
  assumes inv: "\<And>g r. subnets st g = Some r \<Longrightarrow> 0 \<le> count r \<and> total_reward r \<le> count r"
    and d: "0 \<le> decay_rate st"
    and r': "subnets (save exact st) g = Some r'"
  shows "0 \<le> count r' \<and> total_reward r' \<le> count r'"
proof -
  from r' obtain r where r: "subnets st g = Some r"
    and e: "r' = \<lparr>count = count r * decay_rate st, total_reward = total_reward r * decay_rate st\<rparr>"
    by (auto simp: save_def Let_def decayed_def split: option.splits if_splits)
  from inv[OF r] d show ?thesis by (simp add: e mult_right_mono)
qed

text \<open>
  Claim C2, as amended. When \<^verbatim>\<open>update\<close> is called for an address of a known group
  whose count exceeds 2.0 and whose average reward exceeds 0.6, and the new reward is
  below 0.1, the sample is applied with weight 0.2: the count grows by 0.2, the total
  reward by 0.2 times the new reward, and \<^verbatim>\<open>total_runs\<close> by 0.2. The average and the
  reward are the values \<^verbatim>\<open>update\<close> computes, in its float arithmetic; the statement
  holds for every arithmetic \<open>ar\<close>, and the sums and the product are those of \<open>ar\<close>.
\<close>

theorem update_outlier_dampening:
  assumes "subnet_of addr = Some net" and "subnets st net = Some r"
    and "count r > 2" and "fdiv ar (total_reward r) (count r) > 0.6"
    and "current_reward ar lat spd is_loss tcp_only < 0.1"
  shows "subnets (update ar addr lat spd is_loss tcp_only st) net =
           Some \<lparr>count = fadd ar (count r) 0.2,
                 total_reward =
                   fadd ar (total_reward r)
                     (fmul ar (current_reward ar lat spd is_loss tcp_only) 0.2)\<rparr> \<and>
         total_runs (update ar addr lat spd is_loss tcp_only st) =
           fadd ar (total_runs st) 0.2"
  using assms by (simp add: update_def impact_weight_def Let_def)

text \<open>
  The theorem in exact arithmetic, at a group of count 3 and total reward 2.7 that
  receives a lost probe: the count becomes 3.2, the total reward stays 2.7, and the
  sample total grows from 10 to 10.2.
\<close>

theorem update_outlier_dampening_witness:
  "subnets (update exact ''1.2.3.4'' 0 0 True True (good_group_model 3)) ''1.2.3.0'' =
      Some \<lparr>count = 3.2, total_reward = 2.7\<rparr> \<and>
   total_runs (update exact ''1.2.3.4'' 0 0 True True (good_group_model 3)) = 10.2"
  using update_outlier_dampening[of "''1.2.3.4''" "''1.2.3.0''" "good_group_model 3"
      "\<lparr>count = 3, total_reward = 2.7\<rparr>" exact 0 0 True True]
  by (simp add: subnet_of_1234 good_group_model_def current_reward_def)

text \<open>
  The claim as stated fails below the count threshold: a group of count 1 and average
  reward 0.9 that receives a lost probe (reward 0) is updated with weight 1, not 0.2.
  The operations involved (1 + 1, 0.9 + 0 * 1 and 10 + 1) do not round in double
  arithmetic either.
\<close>

theorem update_outlier_dampening_counterexample:
  "total_reward \<lparr>count = 1, total_reward = 0.9\<rparr> / count \<lparr>count = 1, total_reward = 0.9\<rparr> > 0.6 \<and>
   current_reward exact 0 0 True True < 0.1 \<and>
   subnets (good_group_model 1) ''1.2.3.0'' = Some \<lparr>count = 1, total_reward = 0.9\<rparr> \<and>
   subnets (update exact ''1.2.3.4'' 0 0 True True (good_group_model 1)) ''1.2.3.0'' =
      Some \<lparr>count = 2, total_reward = 0.9\<rparr> \<and>
   total_runs (update exact ''1.2.3.4'' 0 0 True True (good_group_model 1)) = 11"
  by (simp add: update_def subnet_of_1234 good_group_model_def current_reward_def
      impact_weight_def)

text \<open>
  Claim C3. The reward is 0 for a lost probe, whatever the arithmetic and the other
  inputs. In exact arithmetic, a probe that is not lost has the latency score
  \<open>0.3 * (1 - clamp ((latency - 50) / 150) 0 1)\<close>; with \<^verbatim>\<open>tcp_only\<close> that is the
  reward, and otherwise, for a throughput that is not negative (\<^verbatim>\<open>update\<close> is called
  with 0.0 or with the result of the throughput probe, which is never negative), the
  reward is the latency score plus \<open>0.7 * clamp (speed / 10) 0 1\<close>. Latency 50 with
  \<^verbatim>\<open>tcp_only\<close> gives 0.3, latency of 200 or more with \<^verbatim>\<open>tcp_only\<close> gives 0, latency
  50 and speed 10 give 1.
\<close>

theorem current_reward_formula:
  "current_reward ar lat spd True tcp_only = 0 \<and>
   current_reward exact lat spd False True = 0.3 * (1 - clamp ((lat - 50) / 150) 0 1) \<and>
   (0 \<le> spd \<longrightarrow>
      current_reward exact lat spd False False =
        0.3 * (1 - clamp ((lat - 50) / 150) 0 1) + 0.7 * clamp (spd / 10) 0 1) \<and>
   current_reward exact 50 spd False True = 0.3 \<and>
   (200 \<le> lat \<longrightarrow> current_reward exact lat spd False True = 0) \<and>
   current_reward exact 50 10 False False = 1"
  by (auto simp: current_reward_def clamp_def Let_def max_def min_def)

text \<open>
  The theorem at latency 125 and speed 5, where the reward is 0.5, and at latency 250
  with \<^verbatim>\<open>tcp_only\<close>.
\<close>

theorem current_reward_formula_witness:
  "current_reward exact 125 5 False False =
      0.3 * (1 - clamp ((125 - 50) / 150) 0 1) + 0.7 * clamp (5 / 10) 0 1 \<and>
   current_reward exact 125 5 False False = 0.5 \<and>
   current_reward exact 250 5 False True = 0"
  using current_reward_formula[of exact 125 5 True]
    current_reward_formula[of exact 250 5 True]
  by (simp add: clamp_def)

section \<open>Decay and pruning\<close>

lemma decay_rate_save [simp]: "decay_rate (save ar st) = decay_rate st"
  by (simp add: save_def)

lemma decay_rate_save_pow [simp]: "decay_rate ((save ar ^^ n) st) = decay_rate st"
  by (induction n) simp_all

lemma save_Some:
  "subnets (save ar st) net = Some r' \<longleftrightarrow>
     (\<exists>r. subnets st net = Some r \<and> r' = decayed ar (decay_rate st) r \<and>
          \<not> (count r' < 0.5 \<and> avg ar r' < 0.2))"
  by (auto simp: save_def Let_def split: option.splits)








section \<open>The sample total moves with the counts\<close>

text \<open>
  Claim C9. For every arithmetic, \<^verbatim>\<open>total_runs\<close> changes only together with a count,
  by the same weight and the same operation: an \<^verbatim>\<open>update\<close> whose address has no group id changes nothing; any other
  \<^verbatim>\<open>update\<close> adds one weight \<open>w\<close> (1 or 0.2) to the count of the address's group
  (a new group starts from 0) and to \<^verbatim>\<open>total_runs\<close>, adds \<open>w\<close> times the reward to
  the group's total reward, and leaves every other group alone; \<^verbatim>\<open>save\<close> multiplies
  \<^verbatim>\<open>total_runs\<close> and the count of every record it keeps by the decay rate.
\<close>

theorem total_runs_lockstep:
  "(subnet_of addr = None \<longrightarrow> update ar addr lat spd is_loss tcp_only st = st) \<and>
   (\<forall>net. subnet_of addr = Some net \<longrightarrow>
      (\<exists>w r'. (w = 1 \<or> w = 0.2) \<and>
         total_runs (update ar addr lat spd is_loss tcp_only st) =
            fadd ar (total_runs st) w \<and>
         subnets (update ar addr lat spd is_loss tcp_only st) net = Some r' \<and>
         count r' = fadd ar (case subnets st net of None \<Rightarrow> 0 | Some r \<Rightarrow> count r) w \<and>
         total_reward r' =
            fadd ar (case subnets st net of None \<Rightarrow> 0 | Some r \<Rightarrow> total_reward r)
              (fmul ar (current_reward ar lat spd is_loss tcp_only) w) \<and>
         (\<forall>other. other \<noteq> net \<longrightarrow>
            subnets (update ar addr lat spd is_loss tcp_only st) other = subnets st other))) \<and>
   total_runs (save ar st) = fmul ar (total_runs st) (decay_rate st) \<and>
   (\<forall>net r'. subnets (save ar st) net = Some r' \<longrightarrow>
      (\<exists>r. subnets st net = Some r \<and> count r' = fmul ar (count r) (decay_rate st)))"
proof -
  have a: "subnet_of addr = None \<longrightarrow> update ar addr lat spd is_loss tcp_only st = st"
    by (simp add: update_def)
  have w: "impact_weight ar r x = 1 \<or> impact_weight ar r x = 0.2" for r x
    by (simp add: impact_weight_def Let_def)
  have b: "\<exists>w r'. (w = 1 \<or> w = 0.2) \<and>
         total_runs (update ar addr lat spd is_loss tcp_only st) =
            fadd ar (total_runs st) w \<and>
         subnets (update ar addr lat spd is_loss tcp_only st) net = Some r' \<and>
         count r' = fadd ar (case subnets st net of None \<Rightarrow> 0 | Some r \<Rightarrow> count r) w \<and>
         total_reward r' =
            fadd ar (case subnets st net of None \<Rightarrow> 0 | Some r \<Rightarrow> total_reward r)
              (fmul ar (current_reward ar lat spd is_loss tcp_only) w) \<and>
         (\<forall>other. other \<noteq> net \<longrightarrow>
            subnets (update ar addr lat spd is_loss tcp_only st) other = subnets st other)"
    if n: "subnet_of addr = Some net" for net
  proof -
    define rec where
      "rec = (case subnets st net of None \<Rightarrow> \<lparr>count = 0, total_reward = 0\<rparr> | Some r \<Rightarrow> r)"
    define x where "x = current_reward ar lat spd is_loss tcp_only"
    have u: "update ar addr lat spd is_loss tcp_only st =
        st\<lparr>total_runs := fadd ar (total_runs st) (impact_weight ar rec x),
           subnets := (subnets st)(net \<mapsto>
              \<lparr>count = fadd ar (count rec) (impact_weight ar rec x),
               total_reward =
                 fadd ar (total_reward rec) (fmul ar x (impact_weight ar rec x))\<rparr>)\<rparr>"
      using n by (simp add: update_def Let_def rec_def x_def)
    have c: "count rec = (case subnets st net of None \<Rightarrow> 0 | Some r \<Rightarrow> count r)"
      and t: "total_reward rec = (case subnets st net of None \<Rightarrow> 0 | Some r \<Rightarrow> total_reward r)"
      by (simp_all add: rec_def split: option.splits)
    show ?thesis
      apply (rule exI[of _ "impact_weight ar rec x"])
      apply (rule exI[of _ "\<lparr>count = fadd ar (count rec) (impact_weight ar rec x),
               total_reward =
                 fadd ar (total_reward rec) (fmul ar x (impact_weight ar rec x))\<rparr>"])
      using w[of rec x] c t by (simp add: u x_def)
  qed
  have c: "total_runs (save ar st) = fmul ar (total_runs st) (decay_rate st)"
    by (simp add: save_def)
  have d: "\<exists>r. subnets st net = Some r \<and> count r' = fmul ar (count r) (decay_rate st)"
    if "subnets (save ar st) net = Some r'" for net r'
    using that by (auto simp: save_Some decayed_def)
  show ?thesis using a b c d by blast
qed

text \<open>
  The theorem in exact arithmetic at a group of count 3 and average 0.9: a lost probe adds 0.2 to its count
  and to the sample total, an unparsable address changes nothing, and \<^verbatim>\<open>save\<close>
  scales the sample total 10 and the count 3 by 0.85.
\<close>

theorem total_runs_lockstep_witness:
  "total_runs (update exact ''1.2.3.4'' 0 0 True True (good_group_model 3)) = total_runs (good_group_model 3) + 0.2 \<and>
   subnets (update exact ''1.2.3.4'' 0 0 True True (good_group_model 3)) ''1.2.3.0'' =
      Some \<lparr>count = 3 + 0.2, total_reward = 2.7\<rparr> \<and>
   update exact ''1.2.3'' 0 0 True True (good_group_model 3) = good_group_model 3 \<and>
   total_runs (save exact (good_group_model 3)) = 10 * 0.85 \<and>
   subnets (save exact (good_group_model 3)) ''1.2.3.0'' = Some \<lparr>count = 3 * 0.85, total_reward = 2.7 * 0.85\<rparr>"
  using total_runs_lockstep[of "''1.2.3.4''" exact 0 0 True True "good_group_model 3"]
    total_runs_lockstep[of "''1.2.3''" exact 0 0 True True "good_group_model 3"]
  by (simp add: subnet_of_1234 ip_eval update_def impact_weight_def current_reward_def
      good_group_model_def save_def decayed_def avg_def)

section \<open>Double arithmetic at the thresholds\<close>

text \<open>
  Evaluating \<open>round_double\<close> inside one binade: a value between \<open>2 ^ -k\<close> and
  \<open>2 ^ (1 - k)\<close> is rounded to a multiple of \<open>2 ^ -(52 + k)\<close>, a value between
  \<open>2 ^ j\<close> and \<open>2 ^ (j + 1)\<close> to a multiple of \<open>2 ^ (j - 52)\<close>.
\<close>

lemma ulp_exponent_eq:
  assumes "0 < x" and "2 powr of_int e \<le> x" and "x < 2 powr of_int (e + 1)"
    and "- 1022 \<le> e"
  shows "ulp_exponent x = e - 52"
proof -
  have "of_int e \<le> log 2 x" using assms(1,2) by (simp add: le_log_iff)
  moreover have "log 2 x < of_int e + 1" using assms(1,3) by (simp add: log_less_iff)
  ultimately have "\<lfloor>log 2 x\<rfloor> = e" by (simp add: floor_eq_iff)
  then show ?thesis using assms(1,4) by (simp add: ulp_exponent_def)
qed

lemma round_double_below_one:
  assumes "1 / 2 ^ k \<le> x" and "x < 2 / 2 ^ k" and "k \<le> 1022"
  shows "round_double x = of_int (round_even (x * 2 ^ (52 + k))) / 2 ^ (52 + k)"
proof -
  have pos: "0 < x" using assms(1) by (meson divide_pos_pos less_le_trans zero_less_numeral
        zero_less_one zero_less_power)
  have p: "2 powr of_int (- int k) \<le> x"
    using assms(1) by (simp add: powr_minus powr_realpow divide_simps)
  have q: "x < 2 powr of_int (- int k + 1)"
    using assms(2) by (simp add: powr_diff powr_realpow)
  have e: "ulp_exponent x = - int k - 52"
    using pos p q assms(3) by (intro ulp_exponent_eq) simp_all
  have u: "2 powr of_int (- int k - 52) = 1 / (2::real) ^ (52 + k)"
    by (simp add: powr_diff powr_minus powr_realpow power_add divide_simps)
  show ?thesis using pos unfolding round_double_def e u by simp
qed

lemma round_double_above_one:
  assumes "2 ^ j \<le> x" and "x < 2 * 2 ^ j" and "j \<le> 52"
  shows "round_double x = of_int (round_even (x * 2 ^ (52 - j))) / 2 ^ (52 - j)"
proof -
  have pos: "0 < x" using assms(1) by (meson less_le_trans zero_less_numeral zero_less_power)
  have p: "2 powr of_int (int j) \<le> x" using assms(1) by (simp add: powr_realpow)
  have q: "x < 2 powr of_int (int j + 1)" using assms(2) by (simp add: powr_add powr_realpow)
  have e: "ulp_exponent x = int j - 52"
    using pos p q by (intro ulp_exponent_eq) simp_all
  have "int j - 52 = - int (52 - j)" using assms(3) by simp
  then have u: "2 powr of_int (int j - 52) = 1 / (2::real) ^ (52 - j)"
    by (simp add: powr_minus powr_realpow divide_simps del: of_nat_diff)
  show ?thesis using pos unfolding round_double_def e u by simp
qed


lemma round_even_numeral [simp]: "round_even (numeral n) = numeral n"
  by (simp add: round_even_def)

lemma double_ops:
  "fadd double a b = round_double (round_double a + round_double b)"
  "fsub double a b = round_double (round_double a - round_double b)"
  "fmul double a b = round_double (round_double a * round_double b)"
  "fdiv double a b = round_double (round_double a / round_double b)"
  by (simp_all add: double_def)

text \<open>
  With double arithmetic the model takes the branches the program takes where rounding
  decides. The record of count 41.60991246165902 and total reward 24.965947476995414
  has an exact quotient above 0.6, but the double quotient is the double 0.6, which is
  not above the threshold: the weight is 1.
\<close>

lemma impact_weight_double_at_threshold:
  "impact_weight double
     \<lparr>count = 2928037285269477 / 70368744177664,
      total_reward = 7027289484646745 / 281474976710656\<rparr> 0 = 1"
proof -
  have c: "round_double (2928037285269477 / 70368744177664) =
      2928037285269477 / 70368744177664"
    by (subst round_double_above_one[of 5]) simp_all
  have t: "round_double (7027289484646745 / 281474976710656) =
      7027289484646745 / 281474976710656"
    by (subst round_double_above_one[of 4]) simp_all
  have q: "round_double
      ((7027289484646745 / 281474976710656) / (2928037285269477 / 70368744177664)) =
      5404319552844595 / 9007199254740992"
    by (subst round_double_below_one[of 1]) (simp_all add: round_even_def)
  have "fdiv double (7027289484646745 / 281474976710656)
        (2928037285269477 / 70368744177664) = 5404319552844595 / 9007199254740992"
    by (simp only: double_ops c t q)
  then show ?thesis by (simp add: impact_weight_def)
qed

text \<open>
  The doubles 2.55 and 1.53 have the double quotient 0.6000000000000001: the weight of a
  lost probe is 0.2.
\<close>

lemma impact_weight_double_above_threshold:
  "impact_weight double
     \<lparr>count = 2871044762448691 / 1125899906842624,
      total_reward = 6890507429876859 / 4503599627370496\<rparr> 0 = 0.2"
proof -
  have c: "round_double (2871044762448691 / 1125899906842624) =
      2871044762448691 / 1125899906842624"
    by (subst round_double_above_one[of 1]) simp_all
  have t: "round_double (6890507429876859 / 4503599627370496) =
      6890507429876859 / 4503599627370496"
    by (subst round_double_above_one[of 0]) simp_all
  have q: "round_double
      ((6890507429876859 / 4503599627370496) / (2871044762448691 / 1125899906842624)) =
      1351079888211149 / 2251799813685248"
    by (subst round_double_below_one[of 1]) (simp_all add: round_even_def)
  have "fdiv double (6890507429876859 / 4503599627370496)
        (2871044762448691 / 1125899906842624) = 1351079888211149 / 2251799813685248"
    by (simp only: double_ops c t q)
  then show ?thesis by (simp add: impact_weight_def)
qed

text \<open>
  The record of count 0.15 and total reward 0.03 (as doubles), decayed by the double
  0.85, has the double average 0.19999999999999998 and the count 0.1275: it is removed.
\<close>

lemma save_double_prunes:
  "subnets (save double
      \<lparr>decay_rate = 7656119366529843 / 9007199254740992, total_runs = 0, launch_count = 1,
       subnets = [''1.2.3.0'' \<mapsto>
         \<lparr>count = 5404319552844595 / 36028797018963968,
          total_reward = 1080863910568919 / 36028797018963968\<rparr>]\<rparr>) ''1.2.3.0'' = None"
proof -
  have r: "round_double (7656119366529843 / 9007199254740992) =
      7656119366529843 / 9007199254740992"
    by (subst round_double_below_one[of 1]) simp_all
  have c: "round_double (5404319552844595 / 36028797018963968) =
      5404319552844595 / 36028797018963968"
    by (subst round_double_below_one[of 3]) simp_all
  have t: "round_double (1080863910568919 / 36028797018963968) =
      1080863910568919 / 36028797018963968"
    by (subst round_double_below_one[of 6]) simp_all
  have cr: "round_double ((5404319552844595 / 36028797018963968) *
        (7656119366529843 / 9007199254740992)) = 2296835809958953 / 18014398509481984"
    by (subst round_double_below_one[of 3]) (simp_all add: round_even_def)
  have tr: "round_double ((1080863910568919 / 36028797018963968) *
        (7656119366529843 / 9007199254740992)) = 7349874591868649 / 288230376151711744"
    by (subst round_double_below_one[of 6]) (simp_all add: round_even_def)
  have cr': "round_double (2296835809958953 / 18014398509481984) =
      2296835809958953 / 18014398509481984"
    by (subst round_double_below_one[of 3]) simp_all
  have tr': "round_double (7349874591868649 / 288230376151711744) =
      7349874591868649 / 288230376151711744"
    by (subst round_double_below_one[of 6]) simp_all
  have q: "round_double ((7349874591868649 / 288230376151711744) /
        (2296835809958953 / 18014398509481984)) = 7205759403792793 / 36028797018963968"
    by (subst round_double_below_one[of 3]) (simp_all add: round_even_def)
  have d: "decayed double (7656119366529843 / 9007199254740992)
        \<lparr>count = 5404319552844595 / 36028797018963968,
         total_reward = 1080863910568919 / 36028797018963968\<rparr> =
      \<lparr>count = 2296835809958953 / 18014398509481984,
       total_reward = 7349874591868649 / 288230376151711744\<rparr>"
    unfolding decayed_def by (simp only: subnet_record.simps double_ops r c t cr tr)
  have a: "avg double \<lparr>count = 2296835809958953 / 18014398509481984,
       total_reward = 7349874591868649 / 288230376151711744\<rparr> =
      7205759403792793 / 36028797018963968"
    unfolding avg_def by (simp only: subnet_record.simps double_ops cr' tr' q) simp
  show ?thesis by (simp add: save_def d a)
qed

section \<open>The generator\<close>

lemma cold_fresh: "is_cold_start fresh_model"
  by (simp add: is_cold_start_def fresh_model_def)

subsection \<open>shuffle\<close>

lemma length_shuffle_from [simp]: "length (fst (shuffle_from k xs g)) = length xs"
  by (induction k arbitrary: xs g) (auto simp: randbelow_def split: prod.splits)

lemma set_shuffle_from: "k < length xs \<Longrightarrow> set (fst (shuffle_from k xs g)) = set xs"
proof (induction k arbitrary: xs g)
  case 0
  then show ?case by simp
next
  case (Suc k)
  obtain j g' where r: "randbelow (Suc (Suc k)) g = (j, g')" by (simp add: randbelow_def)
  then have j: "j < Suc (Suc k)" by (auto simp: randbelow_def)
  let ?ys = "xs[Suc k := xs ! j, j := xs ! Suc k]"
  have s: "set ?ys = set xs" using Suc.prems j by (intro set_swap) auto
  have "k < length ?ys" using Suc.prems by simp
  from Suc.IH[OF this] s r show ?case by simp
qed

lemma length_shuffle: "length (fst (shuffle xs g)) = length xs"
  by (simp add: shuffle_def)

lemma set_shuffle: "set (fst (shuffle xs g)) = set xs"
  by (cases "xs = []") (simp_all add: shuffle_def set_shuffle_from)

lemma fst_shuffle_from: "fst (snd (shuffle_from k xs g)) = fst g"
  by (induction k arbitrary: xs g) (auto simp: randbelow_def split: prod.splits)

lemma fst_shuffle: "fst (snd (shuffle xs g)) = fst g"
  by (simp add: shuffle_def fst_shuffle_from)

subsection \<open>randint\<close>

lemma randint_ok:
  assumes "a \<le> b"
  shows "\<exists>k. randint a b g = Inr (k, (fst g, Suc (snd g))) \<and> a \<le> k \<and> k \<le> b \<and>
             k = a + int (fst g (snd g) mod nat (b - a + 1))"
proof -
  have "int (fst g (snd g) mod nat (b - a + 1)) < b - a + 1"
  proof -
    have "0 < nat (b - a + 1)" using assms by simp
    then have "fst g (snd g) mod nat (b - a + 1) < nat (b - a + 1)" by simp
    then show ?thesis by (simp only: zless_nat_eq_int_zless)
  qed
  then show ?thesis using assms by (simp add: randint_def randbelow_def)
qed


subsection \<open>sweep\<close>

lemma randint_host:
  assumes "num_addresses sn > 2"
  shows "\<exists>i. randint 1 (int (num_addresses sn) - 2) g = Inr (i, (fst g, Suc (snd g))) \<and>
      str_ipv4 (network_address sn + nat i) \<in> host_addresses sn \<and>
      (fst g (snd g) = 0 \<longrightarrow> str_ipv4 (network_address sn + nat i) = first_host sn)"
proof -
  have "(1::int) \<le> int (num_addresses sn) - 2" using assms by simp
  from randint_ok[OF this, of g] obtain i where
    i: "randint 1 (int (num_addresses sn) - 2) g = Inr (i, (fst g, Suc (snd g)))"
    "1 \<le> i" "i \<le> int (num_addresses sn) - 2"
    "i = 1 + int (fst g (snd g) mod nat (int (num_addresses sn) - 2 - 1 + 1))" by blast
  have "nat i \<in> {1..num_addresses sn - 2}" using i(2,3) by auto
  then have "str_ipv4 (network_address sn + nat i) \<in> host_addresses sn"
    unfolding host_addresses_def by blast
  moreover have "fst g (snd g) = 0 \<longrightarrow> nat i = 1" using i(4) by simp
  ultimately show ?thesis using i(1) by (auto simp: first_host_def)
qed

lemma sweep_result:
  "\<exists>ts' p'. sweep subs mx ts g = Inr (ts', (fst g, p')) \<and>
     length ts \<le> length ts' \<and>
     int (length ts') \<le> max (int (length ts)) mx \<and>
     set ts' \<subseteq> set ts \<union> (\<Union>sn\<in>set subs. host_addresses sn) \<and>
     (fst g = (\<lambda>_. 0) \<longrightarrow> set ts' \<subseteq> set ts \<union> first_host ` set subs) \<and>
     (int (length ts) < mx \<and> (\<exists>sn\<in>set subs. num_addresses sn > 2) \<longrightarrow> length ts < length ts')"
proof (induction subs arbitrary: ts g)
  case Nil
  show ?case by (cases g) simp
next
  case (Cons sn sns)
  show ?case
  proof (cases "int (length ts) \<ge> mx")
    case True
    then show ?thesis by (cases g) auto
  next
    case below: False
    show ?thesis
    proof (cases "num_addresses sn > 2")
      case True
      from randint_host[OF True, of g] obtain i where
        i: "randint 1 (int (num_addresses sn) - 2) g = Inr (i, (fst g, Suc (snd g)))"
        and h: "str_ipv4 (network_address sn + nat i) \<in> host_addresses sn"
        and z: "fst g (snd g) = 0 \<longrightarrow> str_ipv4 (network_address sn + nat i) = first_host sn"
        by (elim exE conjE)
      let ?ts1 = "ts @ [str_ipv4 (network_address sn + nat i)]"
      let ?g1 = "(fst g, Suc (snd g))"
      from Cons.IH[of ?ts1 ?g1] obtain ts' p' where
        r: "sweep sns mx ?ts1 ?g1 = Inr (ts', (fst g, p'))"
        and l: "length ?ts1 \<le> length ts'"
        and u: "int (length ts') \<le> max (int (length ?ts1)) mx"
        and s: "set ts' \<subseteq> set ?ts1 \<union> (\<Union>sn\<in>set sns. host_addresses sn)"
        and sz: "fst g = (\<lambda>_. 0) \<longrightarrow> set ts' \<subseteq> set ?ts1 \<union> first_host ` set sns"
        by (elim exE conjE) simp
      have e: "sweep (sn # sns) mx ts g = Inr (ts', (fst g, p'))"
        using below True i r by simp
      have u': "int (length ts') \<le> max (int (length ts)) mx" using u below by auto
      have s': "set ts' \<subseteq> set ts \<union> (\<Union>sn\<in>set (sn # sns). host_addresses sn)"
        using s h by auto
      have sz': "fst g = (\<lambda>_. 0) \<longrightarrow> set ts' \<subseteq> set ts \<union> first_host ` set (sn # sns)"
      proof
        assume a: "fst g = (\<lambda>_. 0)"
        then have "fst g (snd g) = 0" by simp
        with z have "str_ipv4 (network_address sn + nat i) = first_host sn" by simp
        with sz a show "set ts' \<subseteq> set ts \<union> first_host ` set (sn # sns)" by auto
      qed
      from e l u' s' sz' show ?thesis by auto
    next
      case False
      from Cons.IH[of ts g] obtain ts' p' where
        r: "sweep sns mx ts g = Inr (ts', (fst g, p'))"
        and l: "length ts \<le> length ts'"
        and u: "int (length ts') \<le> max (int (length ts)) mx"
        and s: "set ts' \<subseteq> set ts \<union> (\<Union>sn\<in>set sns. host_addresses sn)"
        and sz: "fst g = (\<lambda>_. 0) \<longrightarrow> set ts' \<subseteq> set ts \<union> first_host ` set sns"
        and p: "int (length ts) < mx \<and> (\<exists>sn\<in>set sns. num_addresses sn > 2) \<longrightarrow>
                  length ts < length ts'"
        by (elim exE conjE)
      have e: "sweep (sn # sns) mx ts g = Inr (ts', (fst g, p'))"
        using below False r by simp
      have p': "int (length ts) < mx \<and> (\<exists>x\<in>set (sn # sns). num_addresses x > 2) \<longrightarrow>
                  length ts < length ts'"
        using p False by auto
      have s': "set ts' \<subseteq> set ts \<union> (\<Union>sn\<in>set (sn # sns). host_addresses sn)"
        using s by auto
      have sz': "fst g = (\<lambda>_. 0) \<longrightarrow> set ts' \<subseteq> set ts \<union> first_host ` set (sn # sns)"
        using sz by auto
      from e l u s' sz' p' show ?thesis by blast
    qed
  qed
qed

subsection \<open>cold loop\<close>

lemma cold_loop_returns:
  assumes ex: "\<exists>sn\<in>set subs. num_addresses sn > 2"
    and big: "mx \<le> int (length subs) * 254"
  shows "nat (mx - int (length ts)) < fuel \<Longrightarrow>
    \<exists>ts' p'. cold_loop fuel subs mx ts g = Some (Inr (ts', (fst g, p'))) \<and>
      (int (length ts) \<le> mx \<longrightarrow> int (length ts') = mx) \<and>
      set ts' \<subseteq> set ts \<union> (\<Union>sn\<in>set subs. host_addresses sn) \<and>
      (fst g = (\<lambda>_. 0) \<longrightarrow> set ts' \<subseteq> set ts \<union> first_host ` set subs)"
proof (induction fuel arbitrary: ts g)
  case 0
  then show ?case by simp
next
  case (Suc fuel)
  show ?case
  proof (cases "int (length ts) < mx")
    case False
    then show ?thesis by (cases g) auto
  next
    case True
    from sweep_result[of subs mx ts g] True ex obtain ts1 p1 where
      r: "sweep subs mx ts g = Inr (ts1, (fst g, p1))"
      and u: "int (length ts1) \<le> max (int (length ts)) mx"
      and s: "set ts1 \<subseteq> set ts \<union> (\<Union>sn\<in>set subs. host_addresses sn)"
      and sz: "fst g = (\<lambda>_. 0) \<longrightarrow> set ts1 \<subseteq> set ts \<union> first_host ` set subs"
      and p: "length ts < length ts1"
      by (elim exE conjE) simp
    have u': "int (length ts1) \<le> mx" using u True by simp
    show ?thesis
    proof (cases "int (length ts1) \<ge> mx")
      case True
      then have "cold_loop (Suc fuel) subs mx ts g = Some (Inr (ts1, (fst g, p1)))"
        using \<open>int (length ts) < mx\<close> r by simp
      then show ?thesis using True u' s sz by auto
    next
      case False
      have "nat (mx - int (length ts1)) < fuel" using Suc.prems p False by linarith
      from Suc.IH[OF this, of "(fst g, p1)"] obtain ts' p' where
        c: "cold_loop fuel subs mx ts1 (fst g, p1) = Some (Inr (ts', (fst g, p')))"
        and l: "int (length ts1) \<le> mx \<longrightarrow> int (length ts') = mx"
        and s2: "set ts' \<subseteq> set ts1 \<union> (\<Union>sn\<in>set subs. host_addresses sn)"
        and sz2: "fst g = (\<lambda>_. 0) \<longrightarrow> set ts' \<subseteq> set ts1 \<union> first_host ` set subs"
        by (elim exE conjE) simp
      have "cold_loop (Suc fuel) subs mx ts g = Some (Inr (ts', (fst g, p')))"
        using \<open>int (length ts) < mx\<close> r False big c by simp
      moreover have "set ts' \<subseteq> set ts \<union> (\<Union>sn\<in>set subs. host_addresses sn)"
        using s s2 by blast
      moreover have "fst g = (\<lambda>_. 0) \<longrightarrow> set ts' \<subseteq> set ts \<union> first_host ` set subs"
        using sz sz2 by blast
      ultimately show ?thesis using l u' by auto
    qed
  qed
qed

lemma sweep_no_hosts:
  "\<forall>sn\<in>set subs. \<not> num_addresses sn > 2 \<Longrightarrow> sweep subs mx ts g = Inr (ts, g)"
  by (induction subs) auto

lemma cold_loop_never_returns:
  assumes "\<forall>sn\<in>set subs. \<not> num_addresses sn > 2" and "subs \<noteq> []" and "0 < mx"
  shows "cold_loop fuel subs mx [] g = None"
proof (induction fuel)
  case 0
  show ?case by simp
next
  case (Suc fuel)
  have "sweep subs mx [] g = Inr ([], g)" using assms(1) by (rule sweep_no_hosts)
  then show ?case using assms(2,3) Suc by simp
qed


text \<open>
  Claim C8 fails on the code. For the single range \<^verbatim>\<open>1.1.1.1/32\<close>, a target of one
  address and a first run, the cold-start loop never ends: the only group has no more
  than two addresses, so no sweep adds a target, and the guard of line 251 needs
  \<open>0 \<ge> 250\<close>. Whatever the bound on the number of loop tests, whatever the random
  source, \<^verbatim>\<open>generate\<close> does not return.
\<close>

theorem generate_cold_never_returns:
  "generate fuel str_ipv6 [single_host_range] [] 1 fresh_model g = None"
proof -
  have a: "all_subnets [single_host_range] = [single_host_range]"
    by (simp add: all_subnets_def single_host_range_def)
  have s: "shuffle [single_host_range] g = ([single_host_range], g)"
    by (simp add: shuffle_def)
  have "cold_loop fuel [single_host_range] 1 [] g = None"
    by (rule cold_loop_never_returns) (simp_all add: single_host_range_def num_addresses_def)
  then show ?thesis by (simp add: generate_def cold_fresh a s)
qed

lemma four_groups:
  "all_subnets [four_group_range] =
     [\<lparr>network_address = 167772160, prefixlen = 24\<rparr>,
      \<lparr>network_address = 167772416, prefixlen = 24\<rparr>,
      \<lparr>network_address = 167772672, prefixlen = 24\<rparr>,
      \<lparr>network_address = 167772928, prefixlen = 24\<rparr>]"
  by (simp add: all_subnets_def subnets24_def four_group_range_def upt_rec)

text \<open>
  Claim C6 fails on the code. For the range \<^verbatim>\<open>10.0.0.0/22\<close> (1016 host addresses),
  a target of 1000 and a first run, with the random source whose draws are all 0,
  \<^verbatim>\<open>generate\<close> returns 1000 addresses of which at most four are different: the cold
  path appends every draw without looking for duplicates.
\<close>

theorem generate_cold_duplicates:
  "\<exists>ts g'. generate 1001 str_ipv6 [four_group_range] [] 1000 fresh_model zero_rng =
              Some (Inr (ts, g')) \<and>
     length ts = 1000 \<and> card (set ts) \<le> 4 \<and> \<not> distinct ts"
proof -
  let ?subs = "all_subnets [four_group_range]"
  obtain sh g1 where sh: "shuffle ?subs zero_rng = (sh, g1)" by (cases "shuffle ?subs zero_rng")
  have set_sh: "set sh = set ?subs" and len_sh: "length sh = 4"
    using set_shuffle[of ?subs zero_rng] length_shuffle[of ?subs zero_rng] sh
    by (simp_all add: four_groups)
  have z: "fst g1 = (\<lambda>_. 0)"
    using fst_shuffle[of ?subs zero_rng] sh by (simp add: zero_rng_def)
  have ex: "\<exists>sn\<in>set sh. num_addresses sn > 2"
    unfolding set_sh by (simp add: four_groups num_addresses_def)
  have big: "(1000::int) \<le> int (length sh) * 254" by (simp add: len_sh)
  have fuel: "nat (1000 - int (length ([]::string list))) < 1001" by simp
  from cold_loop_returns[OF ex big fuel, of g1] z obtain ts1 p1 where
    c: "cold_loop 1001 sh 1000 [] g1 = Some (Inr (ts1, (fst g1, p1)))"
    and l: "int (length ts1) = 1000"
    and s: "set ts1 \<subseteq> first_host ` set sh"
    by (elim exE conjE) simp
  let ?ts = "fst (shuffle ts1 (fst g1, p1))"
  have g: "generate 1001 str_ipv6 [four_group_range] [] 1000 fresh_model zero_rng =
      Some (Inr (shuffle ts1 (fst g1, p1)))"
    by (simp add: generate_def cold_fresh sh c)
  have len: "length ?ts = 1000" using l by (simp add: length_shuffle)
  have "card (set ?ts) \<le> card (first_host ` set sh)"
    using s by (simp add: card_mono set_shuffle)
  also have "\<dots> \<le> card (set sh)" by (simp add: card_image_le)
  also have "\<dots> \<le> 4" using card_length[of sh] len_sh by simp
  finally have card: "card (set ?ts) \<le> 4" .
  have "\<not> distinct ?ts" using distinct_card[of ?ts] len card by auto
  then show ?thesis using g len card by (metis prod.collapse)
qed



lemma randint_eval:
  "1 \<le> b \<Longrightarrow> randint 1 b (f, p) = Inr (1 + int (f p mod nat b), (f, Suc p))"
  by (simp add: randint_def randbelow_def)

lemma one_group_hosts:
  "num_addresses one_group_range = 256"
  "str_ipv4 (network_address one_group_range + 1) = ''10.0.0.1''"
  "str_ipv4 (network_address one_group_range + 2) = ''10.0.0.2''"
  "str_ipv4 (network_address one_group_range + 3) = ''10.0.0.3''"
  "str_ipv4 (network_address one_group_range + 4) = ''10.0.0.4''"
  "str_ipv4 (network_address one_group_range + 5) = ''10.0.0.5''"
  by (simp_all add: num_addresses_def one_group_range_def str_ipv4_def str_nat.simps
      digit_char_def)



lemma try_pick_count:
  assumes "p < 254" and "str_ipv4 (network_address one_group_range + Suc p) \<notin> picked"
  shows "try_pick 5 one_group_range picked (\<lambda>i. i, p) =
           Inr (Some (str_ipv4 (network_address one_group_range + Suc p)), (\<lambda>i. i, Suc p))"
proof -
  have r: "randint 1 (int (num_addresses one_group_range) - 2) (\<lambda>i. i, p) =
      Inr (1 + int p, (\<lambda>i. i, Suc p))"
    using assms(1) by (simp add: one_group_hosts(1) randint_eval)
  have n: "nat (1 + int p) = Suc p" by simp
  have f: "(5::nat) = Suc 4" by simp
  show ?thesis
    unfolding f try_pick.simps(2) r using assms(2) by (simp only: sum.case prod.case Let_def n if_True simp_thms)
qed


lemma one_group_hosts_Suc:
  "str_ipv4 (network_address one_group_range + Suc 0) = ''10.0.0.1''"
  "str_ipv4 (network_address one_group_range + Suc 1) = ''10.0.0.2''"
  "str_ipv4 (network_address one_group_range + Suc 2) = ''10.0.0.3''"
  "str_ipv4 (network_address one_group_range + Suc 3) = ''10.0.0.4''"
  "str_ipv4 (network_address one_group_range + Suc 4) = ''10.0.0.5''"
  using one_group_hosts by simp_all


lemma pick_slots_step:
  "n' = Suc n \<Longrightarrow> try_pick 5 sn picked g = Inr (Some rip, g') \<Longrightarrow>
   pick_slots n' sn picked targets c g =
     pick_slots n sn (insert rip picked) (targets @ [rip]) (Suc c) g'"
  by simp

lemma pick_slots_count:
  "pick_slots 5 one_group_range {} [] 0 count_rng =
     Inr ([''10.0.0.1'', ''10.0.0.2'', ''10.0.0.3'', ''10.0.0.4'', ''10.0.0.5''], 5, (\<lambda>i. i, 5))"
proof -
  have t0: "try_pick 5 one_group_range {} (\<lambda>i. i, 0) = Inr (Some ''10.0.0.1'', (\<lambda>i. i, 1))"
    using try_pick_count[of 0 "{}"] unfolding one_group_hosts_Suc by simp
  have t1: "try_pick 5 one_group_range {''10.0.0.1''} (\<lambda>i. i, 1) =
      Inr (Some ''10.0.0.2'', (\<lambda>i. i, 2))"
    using try_pick_count[of 1 "{''10.0.0.1''}"] unfolding one_group_hosts_Suc by simp
  have t2: "try_pick 5 one_group_range {''10.0.0.2'', ''10.0.0.1''} (\<lambda>i. i, 2) =
      Inr (Some ''10.0.0.3'', (\<lambda>i. i, 3))"
    using try_pick_count[of 2 "{''10.0.0.2'', ''10.0.0.1''}"] unfolding one_group_hosts_Suc
    by simp
  have t3: "try_pick 5 one_group_range {''10.0.0.3'', ''10.0.0.2'', ''10.0.0.1''} (\<lambda>i. i, 3) =
      Inr (Some ''10.0.0.4'', (\<lambda>i. i, 4))"
    using try_pick_count[of 3 "{''10.0.0.3'', ''10.0.0.2'', ''10.0.0.1''}"]
    unfolding one_group_hosts_Suc by simp
  have t4: "try_pick 5 one_group_range {''10.0.0.4'', ''10.0.0.3'', ''10.0.0.2'', ''10.0.0.1''}
      (\<lambda>i. i, 4) = Inr (Some ''10.0.0.5'', (\<lambda>i. i, 5))"
    using try_pick_count[of 4 "{''10.0.0.4'', ''10.0.0.3'', ''10.0.0.2'', ''10.0.0.1''}"]
    unfolding one_group_hosts_Suc by simp
  have "pick_slots 5 one_group_range {} [] 0 (\<lambda>i. i, 0) =
      pick_slots 4 one_group_range {''10.0.0.1''} [''10.0.0.1''] 1 (\<lambda>i. i, 1)"
    using pick_slots_step[of 5 4, OF _ t0, of "[]" 0] by simp
  also have "\<dots> = pick_slots 3 one_group_range {''10.0.0.2'', ''10.0.0.1''}
      [''10.0.0.1'', ''10.0.0.2''] 2 (\<lambda>i. i, 2)"
    using pick_slots_step[of 4 3, OF _ t1, of "[''10.0.0.1'']" 1]
    by (simp add: numeral_2_eq_2[symmetric])
  also have "\<dots> = pick_slots 2 one_group_range {''10.0.0.3'', ''10.0.0.2'', ''10.0.0.1''}
      [''10.0.0.1'', ''10.0.0.2'', ''10.0.0.3''] 3 (\<lambda>i. i, 3)"
    using pick_slots_step[of 3 2, OF _ t2, of "[''10.0.0.1'', ''10.0.0.2'']" 2] by simp
  also have "\<dots> = pick_slots 1 one_group_range
      {''10.0.0.4'', ''10.0.0.3'', ''10.0.0.2'', ''10.0.0.1''}
      [''10.0.0.1'', ''10.0.0.2'', ''10.0.0.3'', ''10.0.0.4''] 4 (\<lambda>i. i, 4)"
    using pick_slots_step[of 2 1, OF _ t3, of "[''10.0.0.1'', ''10.0.0.2'', ''10.0.0.3'']" 3]
    by simp
  also have "\<dots> = pick_slots 0 one_group_range
      {''10.0.0.5'', ''10.0.0.4'', ''10.0.0.3'', ''10.0.0.2'', ''10.0.0.1''}
      [''10.0.0.1'', ''10.0.0.2'', ''10.0.0.3'', ''10.0.0.4'', ''10.0.0.5''] 5 (\<lambda>i. i, 5)"
    using pick_slots_step[of 1 0, OF _ t4, of
        "[''10.0.0.1'', ''10.0.0.2'', ''10.0.0.3'', ''10.0.0.4'']" 4]
    by simp
  finally show ?thesis by (simp add: count_rng_def)
qed


lemma keys_distinct: "distinct known_keys \<and> length known_keys = 100"
  by (simp add: known_keys_def upt_rec str_ipv4_def str_nat.simps digit_char_def)

lemma warm_not_cold: "\<not> is_cold_start warm_model"
proof -
  have "dom (subnets warm_model) = set known_keys"
    by (force simp: warm_model_def dom_map_of_conv_image_fst)
  then have "card (dom (subnets warm_model)) = 100"
    using keys_distinct by (simp add: distinct_card)
  then show ?thesis by (simp add: is_cold_start_def warm_model_def)
qed

lemma one_group_unknown: "get_score warm_model ''10.0.0.0'' = 9999"
proof -
  have "''10.0.0.0'' \<notin> set known_keys"
    by (simp add: known_keys_def upt_rec str_ipv4_def str_nat.simps digit_char_def)
  then have "subnets warm_model ''10.0.0.0'' = None"
    by (simp add: warm_model_def map_of_eq_None_iff image_iff)
  then show ?thesis by (simp add: get_score_def)
qed

lemma shuffle_from_step:
  "k' = Suc k \<Longrightarrow> j = f p mod Suc k' \<Longrightarrow>
   shuffle_from k' xs (f, p) = shuffle_from k (xs[k' := xs ! j, j := xs ! k']) (f, Suc p)"
  by (simp add: randbelow_def)

lemma shuffle_count:
  "shuffle [''10.0.0.1'', ''10.0.0.2'', ''10.0.0.3'', ''10.0.0.4'', ''10.0.0.5''] (\<lambda>i. i, 5) =
     ([''10.0.0.4'', ''10.0.0.5'', ''10.0.0.2'', ''10.0.0.3'', ''10.0.0.1''], (\<lambda>i. i, 9))"
proof -
  have l: "length [''10.0.0.1'', ''10.0.0.2'', ''10.0.0.3'', ''10.0.0.4'', ''10.0.0.5''] - 1 = 4"
    by simp
  have "shuffle [''10.0.0.1'', ''10.0.0.2'', ''10.0.0.3'', ''10.0.0.4'', ''10.0.0.5''] (\<lambda>i. i, 5) =
      shuffle_from 4 [''10.0.0.1'', ''10.0.0.2'', ''10.0.0.3'', ''10.0.0.4'', ''10.0.0.5'']
        (\<lambda>i. i, 5)"
    by (simp only: shuffle_def l)
  also have "\<dots> =
      shuffle_from 3 [''10.0.0.5'', ''10.0.0.2'', ''10.0.0.3'', ''10.0.0.4'', ''10.0.0.1'']
        (\<lambda>i. i, 6)"
    by (subst shuffle_from_step[of 4 3 0]) simp_all
  also have "\<dots> =
      shuffle_from 2 [''10.0.0.5'', ''10.0.0.2'', ''10.0.0.4'', ''10.0.0.3'', ''10.0.0.1'']
        (\<lambda>i. i, 7)"
    by (subst shuffle_from_step[of 3 2 2]) simp_all
  also have "\<dots> =
      shuffle_from 1 [''10.0.0.5'', ''10.0.0.4'', ''10.0.0.2'', ''10.0.0.3'', ''10.0.0.1'']
        (\<lambda>i. i, 8)"
    by (subst shuffle_from_step[of 2 1 1]) simp_all
  also have "\<dots> =
      shuffle_from 0 [''10.0.0.4'', ''10.0.0.5'', ''10.0.0.2'', ''10.0.0.3'', ''10.0.0.1'']
        (\<lambda>i. i, 9)"
    by (subst shuffle_from_step[of 1 0 0]) (simp_all add: numeral_2_eq_2[symmetric])
  finally show ?thesis by simp
qed

text \<open>
  Claim C5 fails on the code. In UCB mode the target is tested before each group only.
  For the single group \<^verbatim>\<open>10.0.0.0/24\<close>, a target of one address and the random source
  whose \<open>i\<close>-th draw is \<open>i\<close>, the group has rank 0, gets the quota 5, and five
  addresses are returned.
\<close>

theorem generate_warm_overshoot:
  "generate fuel str_ipv6 [one_group_range] [] 1 warm_model count_rng =
     Some (Inr ([''10.0.0.4'', ''10.0.0.5'', ''10.0.0.2'', ''10.0.0.3'', ''10.0.0.1''],
                (\<lambda>i. i, 9)))"
proof -
  have a: "all_subnets [one_group_range] = [one_group_range]"
    by (simp add: all_subnets_def one_group_range_def)
  have n: "str_ipv4 (network_address one_group_range) = ''10.0.0.0''"
    by (simp add: one_group_range_def str_ipv4_def str_nat.simps digit_char_def)
  have r: "scored_subnets warm_model [one_group_range] = [(9999, one_group_range)]"
    by (simp add: scored_subnets_def n one_group_unknown)
  have q: "quota 0 (Suc 0) count_rng = (5, count_rng)" by (simp add: quota_def)
  have c: "real_count 5 one_group_range = 5"
    by (simp add: real_count_def one_group_hosts(1))
  have w: "warm_loop 0 (Suc 0) [(9999, one_group_range)] 1 [] 0 count_rng =
      Inr ([''10.0.0.1'', ''10.0.0.2'', ''10.0.0.3'', ''10.0.0.4'', ''10.0.0.5''], (\<lambda>i. i, 5))"
    by (simp add: q c pick_slots_count)
  show ?thesis by (simp add: generate_def warm_not_cold a r w shuffle_count del: warm_loop.simps)
qed

section \<open>The final selection of the speed test\<close>

lemma speed_floor_eq: "speed_floor = 3602879701896397 / 36028797018963968"
  unfolding speed_floor_def
  by (subst round_double_below_one[of 4]) (simp_all add: round_even_def)

lemma fst_probe_all:
  "fst (probe_all ar cands i http ucb final) =
     final @ filter (\<lambda>x. speed x > speed_floor)
               (map (\<lambda>(j, r). r\<lparr>speed := http j\<rparr>) (enumerate i cands))"
  by (induction cands arbitrary: i ucb final) (simp_all add: Let_def)

lemma remain_filter:
  "filter (\<lambda>x. x \<notin> set (filter (\<lambda>x. speed x \<ge> target) xs)) xs =
     filter (\<lambda>x. speed x < target) xs"
  by (rule filter_cong) auto

lemma smart_speed_test_selection:
  assumes "slice_to (speed_test_range cfg) results \<noteq> []"
  shows "fst (smart_speed_test ar cfg results http ucb) =
     Some (selection (min_speed_target cfg)
            (probed (slice_to (speed_test_range cfg) results) http))"
proof -
  let ?cands = "slice_to (speed_test_range cfg) results"
  obtain final ucb1 where p: "probe_all ar ?cands 0 http ucb [] = (final, ucb1)"
    by (cases "probe_all ar ?cands 0 http ucb []")
  have f: "final = filter (\<lambda>x. speed x > speed_floor) (probed ?cands http)"
    using fst_probe_all[of ar ?cands 0 http ucb "[]"] p by (simp add: probed_def)
  show ?thesis
    unfolding smart_speed_test_def Let_def selection_def remain_filter
    using assms by (simp add: p f)
qed

lemma smart_speed_test_none:
  "slice_to (speed_test_range cfg) results = [] \<Longrightarrow>
   smart_speed_test ar cfg results http ucb = (None, ucb)"
  by (simp add: smart_speed_test_def)

lemma set_selection:
  "set (selection target rs) \<subseteq> {x \<in> set rs. speed x > speed_floor}"
  by (auto simp: selection_def Let_def dest: in_set_takeD)

lemma selection_qualifying:
  "{x \<in> set rs. speed x > speed_floor \<and> speed x \<ge> target} \<subseteq> set (selection target rs)"
  by (auto simp: selection_def Let_def)

lemma length_selection:
  "length (selection target rs) =
     (if length (filter (\<lambda>x. speed x > speed_floor \<and> speed x \<ge> target) rs) < 5
      then min 5 (length (filter (\<lambda>x. speed x > speed_floor) rs))
      else length (filter (\<lambda>x. speed x > speed_floor \<and> speed x \<ge> target) rs))"
proof -
  define ranked where "ranked = sort_key (\<lambda>x. - speed x) (filter (\<lambda>x. speed x > speed_floor) rs)"
  define qualifying where "qualifying = filter (\<lambda>x. speed x \<ge> target) ranked"
  define others where "others = filter (\<lambda>x. speed x < target) ranked"
  have sel: "selection target rs =
      (if length qualifying < 5 then qualifying @ take (5 - length qualifying) others
       else qualifying)"
    by (simp add: selection_def Let_def ranked_def qualifying_def others_def)
  have lr: "length (filter (\<lambda>x. speed x > speed_floor) rs) = length ranked"
    by (simp add: ranked_def)
  have lq: "length (filter (\<lambda>x. speed x > speed_floor \<and> speed x \<ge> target) rs) = length qualifying"
    by (simp add: qualifying_def ranked_def filter_sort conj_commute)
  have sum: "length qualifying + length others = length ranked"
    unfolding qualifying_def others_def
    using sum_length_filter_compl[of "\<lambda>x. speed x \<ge> target" ranked] by (simp add: not_le)
  show ?thesis unfolding sel lq lr using sum by (auto simp: min_def)
qed

lemma sorted_selection:
  "sorted (map (\<lambda>x. - speed x) (selection target rs))"
proof -
  let ?ranked = "sort_key (\<lambda>x. - speed x) (filter (\<lambda>x. speed x > speed_floor) rs)"
  have s: "sorted (map (\<lambda>x. - speed x) ?ranked)" by (rule sorted_sort_key)
  have q: "sorted (map (\<lambda>x. - speed x) (filter (\<lambda>x. speed x \<ge> target) ?ranked))"
    using s by (rule sorted_filter)
  have o: "sorted (map (\<lambda>x. - speed x) (filter (\<lambda>x. speed x < target) ?ranked))"
    using s by (rule sorted_filter)
  have t: "sorted (map (\<lambda>x. - speed x) (take k (filter (\<lambda>x. speed x < target) ?ranked)))" for k
    using o by (simp add: take_map[symmetric] sorted_wrt_take)
  show ?thesis
    using q t by (auto simp: selection_def Let_def sorted_append dest!: in_set_takeD)
qed


lemma in_probed:
  "x \<in> set (probed cands http) \<Longrightarrow>
     \<exists>i<length cands. x = (cands ! i)\<lparr>speed := http i\<rparr>"
  by (auto simp: probed_def in_set_enumerate_eq)

lemma slice_three: "slice_to (speed_test_range default_config) three_results = three_results"
  by (simp add: slice_to_def default_config_def three_results_def)

lemma probed_one_fast:
  "probed three_results one_fast =
     [\<lparr>ip = ''1.0.0.1'', latency = 10, speed = 6, loss = False\<rparr>,
      \<lparr>ip = ''1.0.1.1'', latency = 20, speed = 0, loss = False\<rparr>,
      \<lparr>ip = ''1.0.2.1'', latency = 30, speed = 0, loss = False\<rparr>]"
  by (simp add: probed_def three_results_def one_fast_def)

lemma probed_mixed:
  "probed three_results mixed_speeds =
     [\<lparr>ip = ''1.0.0.1'', latency = 10, speed = 6, loss = False\<rparr>,
      \<lparr>ip = ''1.0.1.1'', latency = 20, speed = 0, loss = False\<rparr>,
      \<lparr>ip = ''1.0.2.1'', latency = 30, speed = 0.5, loss = False\<rparr>]"
  by (simp add: probed_def three_results_def mixed_speeds_def)

lemma selection_mixed:
  "selection (min_speed_target default_config) (probed three_results mixed_speeds) =
     [\<lparr>ip = ''1.0.0.1'', latency = 10, speed = 6, loss = False\<rparr>,
      \<lparr>ip = ''1.0.2.1'', latency = 30, speed = 0.5, loss = False\<rparr>]"
  by (simp add: probed_mixed selection_def default_config_def speed_floor_eq)

lemma selection_one_fast:
  "selection (min_speed_target default_config) (probed three_results one_fast) =
     [\<lparr>ip = ''1.0.0.1'', latency = 10, speed = 6, loss = False\<rparr>]"
  by (simp add: probed_one_fast selection_def default_config_def speed_floor_eq)

text \<open>
  Claim C7, as amended. When there is a candidate, the list that
  \<^verbatim>\<open>smart_speed_test\<close> prints and writes is \<open>selection\<close> of the probed candidates:
  only candidates whose measured speed is above the double 0.1 (\<open>speed_floor\<close>) are
  eligible; the result holds every
  eligible candidate that reaches \<^verbatim>\<open>min_speed_target\<close>; when fewer than five do, it
  is filled up with the best of the other eligible candidates until it has five entries
  or the eligible candidates are exhausted; and it is in descending order of speed.
\<close>

theorem smart_speed_test_selected:
  assumes "slice_to (speed_test_range cfg) results \<noteq> []"
  shows "fst (smart_speed_test ar cfg results http ucb) =
           Some (selection (min_speed_target cfg)
                  (probed (slice_to (speed_test_range cfg) results) http)) \<and>
         set (selection target rs) \<subseteq> {x \<in> set rs. speed x > speed_floor} \<and>
         {x \<in> set rs. speed x > speed_floor \<and> speed x \<ge> target} \<subseteq> set (selection target rs) \<and>
         length (selection target rs) =
           (if length (filter (\<lambda>x. speed x > speed_floor \<and> speed x \<ge> target) rs) < 5
            then min 5 (length (filter (\<lambda>x. speed x > speed_floor) rs))
            else length (filter (\<lambda>x. speed x > speed_floor \<and> speed x \<ge> target) rs)) \<and>
         sorted (map (\<lambda>x. - speed x) (selection target rs))"
  using smart_speed_test_selection[OF assms] set_selection selection_qualifying
    length_selection sorted_selection by blast

text \<open>
  The theorem at three candidates with speeds 6, 0 and 0.5 and target 5: the first
  qualifies, the third is the only backfill.
\<close>

theorem smart_speed_test_selected_witness:
  "fst (smart_speed_test exact default_config three_results mixed_speeds fresh_model) =
     Some [\<lparr>ip = ''1.0.0.1'', latency = 10, speed = 6, loss = False\<rparr>,
           \<lparr>ip = ''1.0.2.1'', latency = 30, speed = 0.5, loss = False\<rparr>]"
proof -
  have h: "slice_to (speed_test_range default_config) three_results \<noteq> []"
    by (simp add: slice_three) (simp add: three_results_def)
  from smart_speed_test_selected[OF h, of exact mixed_speeds fresh_model]
  show ?thesis by (simp add: slice_three selection_mixed)
qed

text \<open>
  The claim as stated fails: of three probed candidates with speeds 6, 0 and 0 and target
  5, only the first is selected. The two others are probed candidates, and the result has
  fewer than five entries, but they are not used as backfill.
\<close>

theorem smart_speed_test_selected_counterexample:
  "length (probed (slice_to (speed_test_range default_config) three_results) one_fast) = 3 \<and>
   fst (smart_speed_test exact default_config three_results one_fast fresh_model) =
     Some [\<lparr>ip = ''1.0.0.1'', latency = 10, speed = 6, loss = False\<rparr>]"
proof -
  have h: "slice_to (speed_test_range default_config) three_results \<noteq> []"
    by (simp add: slice_three) (simp add: three_results_def)
  have l: "length (probed (slice_to (speed_test_range default_config) three_results) one_fast) = 3"
    by (simp add: slice_three probed_one_fast)
  from smart_speed_test_selection[OF h, of exact one_fast fresh_model]
  have "fst (smart_speed_test exact default_config three_results one_fast fresh_model) =
     Some [\<lparr>ip = ''1.0.0.1'', latency = 10, speed = 6, loss = False\<rparr>]"
    by (simp add: slice_three selection_one_fast)
  with l show ?thesis by simp
qed

text \<open>
  Claim C10. Without a candidate nothing is selected. Otherwise every entry of the
  selection is one of the candidates with the speed its own probe measured, and that
  speed is above the double 0.1 (\<open>speed_floor\<close>), hence above 0.1: a candidate whose
  probe gives 0.1 or less (a failed probe gives 0)
  is never selected, also not as backfill.
\<close>

theorem selected_speed_above_threshold:
  "(slice_to (speed_test_range cfg) results = [] \<longrightarrow>
      fst (smart_speed_test ar cfg results http ucb) = None) \<and>
   (\<forall>out x. fst (smart_speed_test ar cfg results http ucb) = Some out \<and> x \<in> set out \<longrightarrow>
      speed x > speed_floor \<and> speed x > 0.1 \<and>
      (\<exists>i<length (slice_to (speed_test_range cfg) results).
          x = (slice_to (speed_test_range cfg) results ! i)\<lparr>speed := http i\<rparr> \<and>
          http i > speed_floor))"
proof -
  let ?cands = "slice_to (speed_test_range cfg) results"
  have a: "?cands = [] \<longrightarrow> fst (smart_speed_test ar cfg results http ucb) = None"
    by (simp add: smart_speed_test_none)
  have b: "speed x > speed_floor \<and> speed x > 0.1 \<and>
      (\<exists>i<length ?cands. x = (?cands ! i)\<lparr>speed := http i\<rparr> \<and> http i > speed_floor)"
    if o: "fst (smart_speed_test ar cfg results http ucb) = Some out" and x: "x \<in> set out"
    for out x
  proof -
    have ne: "?cands \<noteq> []" using o smart_speed_test_none[of cfg results ar http ucb] by auto
    from smart_speed_test_selection[OF ne, of ar http ucb] o
    have "out = selection (min_speed_target cfg) (probed ?cands http)" by simp
    with x set_selection[of "min_speed_target cfg" "probed ?cands http"]
    have m: "x \<in> set (probed ?cands http)" and s: "speed x > speed_floor" by auto
    from in_probed[OF m] obtain i where i: "i < length ?cands"
      "x = (?cands ! i)\<lparr>speed := http i\<rparr>" by blast
    then have "http i > speed_floor" using s by simp
    moreover have "speed x > 0.1" using s by (simp add: speed_floor_eq)
    ultimately show ?thesis using i s by blast
  qed
  show ?thesis using a b by blast
qed

text \<open>
  The theorem at three candidates with speeds 6, 0 and 0.5: the candidate of speed 0 is
  left out although only two entries are selected; and at an empty result list.
\<close>

theorem selected_speed_above_threshold_witness:
  "fst (smart_speed_test exact default_config three_results mixed_speeds fresh_model) =
     Some [\<lparr>ip = ''1.0.0.1'', latency = 10, speed = 6, loss = False\<rparr>,
           \<lparr>ip = ''1.0.2.1'', latency = 30, speed = 0.5, loss = False\<rparr>] \<and>
   speed \<lparr>ip = ''1.0.2.1'', latency = 30, speed = 0.5, loss = False\<rparr> > 0.1 \<and>
   fst (smart_speed_test exact default_config [] mixed_speeds fresh_model) = None"
proof -
  have h: "slice_to (speed_test_range default_config) three_results \<noteq> []"
    by (simp add: slice_three) (simp add: three_results_def)
  have e: "fst (smart_speed_test exact default_config three_results mixed_speeds fresh_model) =
     Some [\<lparr>ip = ''1.0.0.1'', latency = 10, speed = 6, loss = False\<rparr>,
           \<lparr>ip = ''1.0.2.1'', latency = 30, speed = 0.5, loss = False\<rparr>]"
    using smart_speed_test_selection[OF h, of exact mixed_speeds fresh_model]
    by (simp add: slice_three selection_mixed)
  have n: "slice_to (speed_test_range default_config) ([]::ip_result list) = []"
    by (simp add: slice_to_def)
  from selected_speed_above_threshold[of default_config three_results exact mixed_speeds fresh_model]
    selected_speed_above_threshold[of default_config "[]" exact mixed_speeds fresh_model] e n
  show ?thesis by simp
qed

end
